theory Spec2Isabelle
  imports Complex_Main
begin

section \<open>Batched matrix multiplication: tensorflow/core/kernels/batch_matmul_op.cc\<close>

text \<open>
  A shallow embedding of the \<open>BatchMatMul\<close> kernel. Scalars are exact: the complex
  kinds are the type \<open>complex\<close>, the real kinds any commutative semiring (which covers
  wrapping 32-bit integers); floating-point rounding is not part of the model.
\<close>

subsection \<open>Contraction pairs\<close>

text \<open>
  \<open>Eigen::IndexPair<Eigen::DenseIndex>(a, b)\<close>: axis \<open>a\<close> of the left operand is summed
  against axis \<open>b\<close> of the right operand.
\<close>

type_synonym IndexPair = "nat \<times> nat"

text \<open>The selection at the head of \<open>InnerBatchMatMulKernel<In, Out, true>::Run\<close>.\<close>

definition contract_pairs :: "bool \<Rightarrow> bool \<Rightarrow> IndexPair" where
  "contract_pairs adj_x adj_y =
     (if \<not> adj_x \<and> \<not> adj_y then (1, 0)
      else if adj_x \<and> adj_y then (0, 1)
      else if \<not> adj_x \<and> adj_y then (1, 1)
      else (0, 0))"

text \<open>The same selection in the real specialisation \<open>InnerBatchMatMulKernel<In, Out, false>::Run\<close>.\<close>

definition contract_pairs_real :: "bool \<Rightarrow> bool \<Rightarrow> IndexPair" where
  "contract_pairs_real adj_x adj_y =
     (if \<not> adj_x \<and> \<not> adj_y then (1, 0)
      else if adj_x \<and> adj_y then (0, 1)
      else if \<not> adj_x \<and> adj_y then (1, 1)
      else (0, 0))"

subsection \<open>Tensors and statuses\<close>

text \<open>
  A \<open>TensorShape\<close> is the list of its dimension sizes (never negative, hence \<open>nat\<close>); a
  \<open>Tensor\<close> is a shape over a dense row-major buffer.
\<close>

type_synonym TensorShape = "nat list"

definition num_elements :: "TensorShape \<Rightarrow> nat" where
  "num_elements s = prod_list s"

record 'a Tensor =
  shape :: TensorShape
  flat :: "'a list"

definition dims :: "'a Tensor \<Rightarrow> nat" where
  "dims t = length (shape t)"

definition dim_size :: "'a Tensor \<Rightarrow> nat \<Rightarrow> nat" where
  "dim_size t i = shape t ! i"

definition NumElements :: "'a Tensor \<Rightarrow> nat" where
  "NumElements t = num_elements (shape t)"

text \<open>
  \<open>Tensor::CopyFrom(other, shape)\<close>: a view of the same buffer under another shape;
  it refuses (returns false) when the element counts differ.
\<close>

definition CopyFrom :: "'a Tensor \<Rightarrow> TensorShape \<Rightarrow> 'a Tensor option" where
  "CopyFrom other s =
     (if num_elements (shape other) = num_elements s
      then Some \<lparr>shape = s, flat = flat other\<rparr> else None)"

text \<open>
  The arguments of \<open>errors::InvalidArgument(...)\<close> and \<open>errors::Internal(...)\<close> are kept as
  a list, one entry per argument: a string literal, a number, a shape (printed by
  \<open>DebugString\<close>) or a flag.
\<close>

datatype msg_arg = Str string | Num int | Shp TensorShape | Flag bool

datatype Status =
    OK
  | InvalidArgument "msg_arg list"
  | Internal "msg_arg list"
  | ResourceExhausted "msg_arg list"

text \<open>The calls \<open>Compute\<close> makes on its collaborators, in order.\<close>

datatype 'a call =
    allocate_output TensorShape
  | SetZeroFunctor
  | LaunchBatchMatMul "'a Tensor" "'a Tensor" bool bool "'a Tensor"

text \<open>
  What one \<open>Compute\<close> leaves in the \<open>OpKernelContext\<close>: the status, output 0 when it
  was allocated, and the calls made. \<open>returned\<close> is false when \<open>Compute\<close> does not return
  normally (a failed \<open>CHECK\<close> aborts the process; the backend's behaviour was undefined).
\<close>

record 'a OpKernelContext =
  status :: Status
  output0 :: "'a Tensor option"
  trace :: "'a call list"
  returned :: bool

definition SetZero :: "('a::zero) Tensor \<Rightarrow> 'a Tensor" where
  "SetZero out = out\<lparr>flat := map (\<lambda>_. 0) (flat out)\<rparr>"

subsection \<open>\<open>BatchMatMul::Compute\<close>\<close>

text \<open>The loop over the batch dimensions, \<open>for (int i = 0; i < ndims - 2; ++i)\<close>.\<close>

function batch_dims ::
  "'a Tensor \<Rightarrow> 'a Tensor \<Rightarrow> nat \<Rightarrow> nat \<Rightarrow> TensorShape \<Rightarrow> Status + TensorShape" where
  "batch_dims in0 in1 ndims i out_shape =
     (if i < ndims - 2 then
        (if dim_size in0 i = dim_size in1 i
         then batch_dims in0 in1 ndims (i + 1) (out_shape @ [dim_size in0 i])
         else Inl (InvalidArgument
                [Str ''In[0].dim('', Num (int i), Str '') and In[1].dim('', Num (int i),
                 Str '') must be the same: '', Shp (shape in0), Str '' vs '',
                 Shp (shape in1)]))
      else Inr out_shape)"
  by pat_completeness auto
termination
  by (relation "measure (\<lambda>(in0, in1, ndims, i, out_shape). ndims - 2 - i)") auto

text \<open>
  \<open>Compute\<close>, parameterised by the device's \<open>LaunchBatchMatMul<Device, Scalar>::Launch\<close>
  (which yields the status it set and the buffer it wrote, or \<open>None\<close> when it does not
  return normally) and by the framework's output allocator (which fails with a status or
  hands out uninitialised memory, given as its contents by index).
\<close>

definition Compute ::
  "('a Tensor \<Rightarrow> 'a Tensor \<Rightarrow> bool \<Rightarrow> bool \<Rightarrow> 'a Tensor \<Rightarrow> (Status \<times> 'a Tensor) option) \<Rightarrow>
   (TensorShape \<Rightarrow> Status + (nat \<Rightarrow> 'a)) \<Rightarrow> bool \<Rightarrow> bool \<Rightarrow>
   ('a::zero) Tensor \<Rightarrow> 'a Tensor \<Rightarrow> 'a OpKernelContext" where
  "Compute launch alloc adj_x adj_y in0 in1 =
    (if dims in0 \<noteq> dims in1 then
       \<lparr>status = InvalidArgument [Str ''In[0] and In[1] has different ndims: '',
                   Shp (shape in0), Str '' vs. '', Shp (shape in1)],
        output0 = None, trace = [], returned = True\<rparr>
     else let ndims = dims in0 in
     if \<not> 2 \<le> ndims then
       \<lparr>status = InvalidArgument [Str ''In[0] and In[1] ndims must be >= 2: '',
                   Num (int ndims)],
        output0 = None, trace = [], returned = True\<rparr>
     else (case batch_dims in0 in1 ndims 0 [] of
       Inl st \<Rightarrow> \<lparr>status = st, output0 = None, trace = [], returned = True\<rparr>
     | Inr out_shape \<Rightarrow>
       let n = (if ndims = 2 then 1 else num_elements out_shape);
           d0 = dim_size in0 (ndims - 2);
           d1 = dim_size in0 (ndims - 1)
       in (case CopyFrom in0 [n, d0, d1] of
         None \<Rightarrow> \<lparr>status = OK, output0 = None, trace = [], returned = False\<rparr>
       | Some in0_reshaped \<Rightarrow>
       let d2 = dim_size in1 (ndims - 2);
           d3 = dim_size in1 (ndims - 1)
       in (case CopyFrom in1 [n, d2, d3] of
         None \<Rightarrow> \<lparr>status = OK, output0 = None, trace = [], returned = False\<rparr>
       | Some in1_reshaped \<Rightarrow>
       let (d0, d1) = (if adj_x then (d1, d0) else (d0, d1));
           (d2, d3) = (if adj_y then (d3, d2) else (d2, d3))
       in if d1 \<noteq> d2 then
         \<lparr>status = InvalidArgument [Str ''In[0] mismatch In[1] shape: '', Num (int d1),
                     Str '' vs. '', Num (int d2), Str '': '', Shp (shape in0), Str '' '',
                     Shp (shape in1), Str '' '', Flag adj_x, Str '' '', Flag adj_y],
          output0 = None, trace = [], returned = True\<rparr>
       else let out_shape = (out_shape @ [d0]) @ [d3]
       in (case alloc out_shape of
         Inl st \<Rightarrow>
           \<lparr>status = st, output0 = None, trace = [allocate_output out_shape],
            returned = True\<rparr>
       | Inr mem \<Rightarrow>
       let out = \<lparr>shape = out_shape, flat = map mem [0..<num_elements out_shape]\<rparr>
       in if NumElements out = 0 then
         \<lparr>status = OK, output0 = Some out, trace = [allocate_output out_shape],
          returned = True\<rparr>
       else if NumElements in0 = 0 \<or> NumElements in1 = 0 then
         \<lparr>status = OK, output0 = Some (SetZero out),
          trace = [allocate_output out_shape, SetZeroFunctor], returned = True\<rparr>
       else (case CopyFrom out [n, d0, d3] of
         None \<Rightarrow>
           \<lparr>status = OK, output0 = Some out, trace = [allocate_output out_shape],
            returned = False\<rparr>
       | Some out_reshaped \<Rightarrow>
         (case launch in0_reshaped in1_reshaped adj_x adj_y out_reshaped of
            None \<Rightarrow>
              \<lparr>status = OK, output0 = Some out,
               trace = [allocate_output out_shape,
                        LaunchBatchMatMul in0_reshaped in1_reshaped adj_x adj_y out_reshaped],
               returned = False\<rparr>
          | Some (st, written) \<Rightarrow>
              \<lparr>status = st, output0 = Some (out\<lparr>flat := flat written\<rparr>),
               trace = [allocate_output out_shape,
                        LaunchBatchMatMul in0_reshaped in1_reshaped adj_x adj_y out_reshaped],
               returned = True\<rparr>)))))))"

subsection \<open>Eigen expressions\<close>

text \<open>
  A rank-2 tensor expression: its two dimensions and its coefficients in row-major order
  (the layout of TensorFlow's \<open>TTypes<Scalar, 3>::Tensor\<close> maps).
\<close>

record 'a Matrix =
  dim0 :: nat
  dim1 :: nat
  coeff :: "'a list"

definition coeff_at :: "'a Matrix \<Rightarrow> nat \<Rightarrow> nat \<Rightarrow> 'a" where
  "coeff_at m p q = coeff m ! (p * dim1 m + q)"

text \<open>
  \<open>T.chip<0>(i)\<close> of a rank-3 row-major tensor: the \<open>i\<close>-th matrix of the batch, which
  starts at offset \<open>i * (dim 1 * dim 2)\<close> of the buffer.
\<close>

definition chip0 :: "'a Tensor \<Rightarrow> nat \<Rightarrow> 'a Matrix" where
  "chip0 t i =
     \<lparr>dim0 = dim_size t 1, dim1 = dim_size t 2,
      coeff = take (dim_size t 1 * dim_size t 2)
                (drop (i * (dim_size t 1 * dim_size t 2)) (flat t))\<rparr>"

text \<open>\<open>e.conjugate()\<close> on a complex expression: the complex conjugate of every coefficient.\<close>

definition conjugate :: "complex Matrix \<Rightarrow> complex Matrix" where
  "conjugate m = m\<lparr>coeff := map cnj (coeff m)\<rparr>"

text \<open>
  Modelled from the spec: Eigen's \<open>x.contract(y, pairs)\<close> for rank-2 operands and one index
  pair \<open>(a, b)\<close> (the Eigen tensor library is not under src/). Axis \<open>a\<close> of \<open>x\<close> is summed
  against axis \<open>b\<close> of \<open>y\<close>; the result has the remaining dimension of \<open>x\<close> first and the
  remaining dimension of \<open>y\<close> second.
\<close>

definition contract :: "('a::semiring_0) Matrix \<Rightarrow> 'a Matrix \<Rightarrow> IndexPair \<Rightarrow> 'a Matrix" where
  "contract x y pair =
     (let a = fst pair; b = snd pair;
          m = (if a = 0 then dim1 x else dim0 x);
          k = (if a = 0 then dim0 x else dim1 x);
          n = (if b = 0 then dim1 y else dim0 y)
      in \<lparr>dim0 = m, dim1 = n,
          coeff = concat (map (\<lambda>p. map (\<lambda>q.
                    sum_list (map (\<lambda>l. (if a = 0 then coeff_at x l p else coeff_at x p l) *
                                         (if b = 0 then coeff_at y l q else coeff_at y q l))
                              [0..<k]))
                    [0..<n]) [0..<m])\<rparr>)"

text \<open>
  \<open>z.device(d) = e\<close> where \<open>z = Tz.chip<0>(i)\<close>: the coefficients of \<open>e\<close> are written, in
  row-major order, over the buffer of \<open>Tz\<close> from the chip's offset on.
\<close>

definition assign_chip0 :: "'a Tensor \<Rightarrow> nat \<Rightarrow> 'a Matrix \<Rightarrow> 'a Tensor" where
  "assign_chip0 Tz i e =
     (let off = i * (dim_size Tz 1 * dim_size Tz 2)
      in Tz\<lparr>flat := take off (flat Tz) @ coeff e @ drop (off + length (coeff e)) (flat Tz)\<rparr>)"

text \<open>
  The two Eigen devices a contraction can be evaluated on. The device decides how the
  evaluation is scheduled, not what it computes.
\<close>

datatype Device = DefaultDevice | ThreadPoolDevice

subsection \<open>\<open>InnerBatchMatMulKernel\<close>\<close>

text \<open>
  The loop \<open>for (int i = start; i < limit; ++i)\<close> of both \<open>Run\<close> functions, over a body
  that may have no defined result.
\<close>

function for_units :: "(int \<Rightarrow> 's \<Rightarrow> 's option) \<Rightarrow> int \<Rightarrow> int \<Rightarrow> 's \<Rightarrow> 's option" where
  "for_units body i limit s =
     (if i < limit then
        (case body i s of None \<Rightarrow> None | Some s' \<Rightarrow> for_units body (i + 1) limit s')
      else Some s)"
  by pat_completeness auto
termination
  by (relation "measure (\<lambda>(body, i, limit, s). nat (limit - i))") auto

text \<open>
  A chip index is inside the three tensors; outside, \<open>chip<0>(i)\<close> reads or writes past
  the buffer and the behaviour is undefined.
\<close>

definition chips_in_range :: "'a Tensor \<Rightarrow> 'a Tensor \<Rightarrow> 'a Tensor \<Rightarrow> int \<Rightarrow> bool" where
  "chips_in_range Tx Ty Tz i =
     (0 \<le> i \<and> nat i < dim_size Tx 0 \<and> nat i < dim_size Ty 0 \<and> nat i < dim_size Tz 0)"

text \<open>The complex kernel, \<open>InnerBatchMatMulKernel<In, Out, true>\<close>.\<close>

definition Contract ::
  "Device \<Rightarrow> ('a::semiring_0) Matrix \<Rightarrow> 'a Matrix \<Rightarrow> 'a Tensor \<Rightarrow> nat \<Rightarrow> IndexPair \<Rightarrow> 'a Tensor" where
  "Contract d x y Tz i pairs = assign_chip0 Tz i (contract x y pairs)"

definition Conjugate :: "complex Tensor \<Rightarrow> complex Tensor" where
  "Conjugate Tz = Tz\<lparr>flat := map cnj (flat Tz)\<rparr>"

definition Run ::
  "bool \<Rightarrow> complex Tensor \<Rightarrow> complex Tensor \<Rightarrow> bool \<Rightarrow> bool \<Rightarrow> complex Tensor \<Rightarrow> int \<Rightarrow> int \<Rightarrow>
   complex Tensor option" where
  "Run parallelize_inner Tx Ty adj_x adj_y Tz start limit =
     (let pairs = contract_pairs adj_x adj_y
      in for_units
           (\<lambda>i Tz.
              if chips_in_range Tx Ty Tz i then
                (let x = chip0 Tx (nat i)
                 in if adj_x \<noteq> adj_y then
                      (let y = conjugate (chip0 Ty (nat i))
                       in if parallelize_inner
                          then Some (Contract ThreadPoolDevice x y Tz (nat i) pairs)
                          else Some (Contract DefaultDevice x y Tz (nat i) pairs))
                    else
                      (let y = chip0 Ty (nat i)
                       in if parallelize_inner
                          then Some (Contract ThreadPoolDevice x y Tz (nat i) pairs)
                          else Some (Contract DefaultDevice x y Tz (nat i) pairs)))
              else None)
           start limit Tz)"

text \<open>The real specialisation, \<open>InnerBatchMatMulKernel<In, Out, false>\<close>.\<close>

definition Contract_real ::
  "Device \<Rightarrow> ('a::semiring_0) Matrix \<Rightarrow> 'a Matrix \<Rightarrow> 'a Tensor \<Rightarrow> nat \<Rightarrow> IndexPair \<Rightarrow> 'a Tensor" where
  "Contract_real d x y Tz i pairs = assign_chip0 Tz i (contract x y pairs)"

definition Conjugate_real :: "'a Tensor \<Rightarrow> 'a Tensor" where
  "Conjugate_real Tz = Tz"

definition Run_real ::
  "bool \<Rightarrow> ('a::semiring_0) Tensor \<Rightarrow> 'a Tensor \<Rightarrow> bool \<Rightarrow> bool \<Rightarrow> 'a Tensor \<Rightarrow> int \<Rightarrow> int \<Rightarrow>
   'a Tensor option" where
  "Run_real parallelize_inner Tx Ty adj_x adj_y Tz start limit =
     (let pairs = contract_pairs_real adj_x adj_y
      in for_units
           (\<lambda>i Tz.
              if chips_in_range Tx Ty Tz i then
                (let x = chip0 Tx (nat i);
                     y = chip0 Ty (nat i)
                 in if parallelize_inner
                    then Some (Contract_real ThreadPoolDevice x y Tz (nat i) pairs)
                    else Some (Contract_real DefaultDevice x y Tz (nat i) pairs))
              else None)
           start limit Tz)"

subsection \<open>\<open>LaunchBatchMatMul<CPUDevice, Scalar>::Launch\<close>\<close>

text \<open>
  What \<open>Launch\<close> decides to do with the batch: run the kernel on the calling thread, or
  hand the range to \<open>Shard\<close>. The fields are the arguments as written at the call.
\<close>

datatype schedule =
    RunInline bool int int
  | ShardOuter int int int bool

text \<open>
  \<open>RunInline parallelize_inner start limit\<close> is
  \<open>Kernel::Run(context, parallelize_inner, Tx, Ty, adj_x, adj_y, Tz, start, limit)\<close>;
  \<open>ShardOuter num_outer_threads num_units cost_per_unit parallelize_inner\<close> is
  \<open>Shard(num_outer_threads, worker_threads.workers, num_units, cost_per_unit, work)\<close>
  where \<open>work\<close> captures \<open>parallelize_inner\<close>. \<open>num_threads\<close> is the size of the device's
  worker pool. The 64-bit products are taken exactly (signed overflow is undefined).
\<close>

definition dispatch :: "int \<Rightarrow> 'a Tensor \<Rightarrow> 'a Tensor \<Rightarrow> schedule" where
  "dispatch num_threads in_x out =
     (let num_units = int (dim_size in_x 0);
          cost_per_unit = int (dim_size in_x 1) * int (dim_size in_x 2) * int (dim_size out 2);
          kMaxCostOuterParallelism = 128 * 256 * 256;
          parallelize_inner = True
      in if num_units = 1 \<or>
            (cost_per_unit > kMaxCostOuterParallelism \<and> int (dim_size out 2) > 1)
         then RunInline parallelize_inner 0 num_units
         else
           (let parallelize_inner = (num_threads > num_units \<and> int (dim_size out 2) > 1);
                num_outer_threads =
                  (if parallelize_inner then max 1 (num_threads - 1) else num_threads)
            in ShardOuter num_outer_threads num_units cost_per_unit parallelize_inner))"

text \<open>
  An \<open>int64\<close> passed where the callee takes an \<open>int\<close>: the value is reduced to 32 bits,
  two's complement.
\<close>

definition int64_to_int :: "int \<Rightarrow> int" where
  "int64_to_int v = signed_take_bit 31 v"

text \<open>The work function run on each block that \<open>Shard\<close> hands out, one block after another.\<close>

fun run_blocks :: "(int \<Rightarrow> int \<Rightarrow> 's \<Rightarrow> 's option) \<Rightarrow> (int \<times> int) list \<Rightarrow> 's \<Rightarrow> 's option" where
  "run_blocks work [] s = Some s"
| "run_blocks work ((start, limit) # blocks) s =
     (case work start limit s of None \<Rightarrow> None | Some s' \<Rightarrow> run_blocks work blocks s')"

text \<open>
  \<open>Launch\<close>, over the kernel chosen by \<open>Eigen::NumTraits<Scalar>::IsComplex\<close> (its \<open>Run\<close>
  and its \<open>Conjugate\<close>). \<open>Shard\<close> belongs to the work sharder (util/work_sharder.h, not
  under src/) and is a parameter: given the parallelism, the total and the cost per unit,
  it yields the blocks \<open>(start, limit)\<close> on which it calls \<open>work\<close>, in the order in which
  they run. \<open>work\<close> and \<open>Run\<close> take \<open>int\<close> where \<open>num_units\<close> and the blocks are \<open>int64\<close>.
\<close>

definition Launch ::
  "(bool \<Rightarrow> 'a Tensor \<Rightarrow> 'a Tensor \<Rightarrow> bool \<Rightarrow> bool \<Rightarrow> 'a Tensor \<Rightarrow> int \<Rightarrow> int \<Rightarrow> 'a Tensor option) \<Rightarrow>
   ('a Tensor \<Rightarrow> 'a Tensor) \<Rightarrow> int \<Rightarrow> (int \<Rightarrow> int \<Rightarrow> int \<Rightarrow> (int \<times> int) list) \<Rightarrow>
   'a Tensor \<Rightarrow> 'a Tensor \<Rightarrow> bool \<Rightarrow> bool \<Rightarrow> 'a Tensor \<Rightarrow> 'a Tensor option" where
  "Launch Kernel_Run Kernel_Conjugate num_threads Shard in_x in_y adj_x adj_y out =
     (let Tx = in_x; Ty = in_y; Tz = out;
          ran =
            (case dispatch num_threads in_x out of
               RunInline parallelize_inner start limit \<Rightarrow>
                 Kernel_Run parallelize_inner Tx Ty adj_x adj_y Tz
                   (int64_to_int start) (int64_to_int limit)
             | ShardOuter num_outer_threads num_units cost_per_unit parallelize_inner \<Rightarrow>
                 run_blocks
                   (\<lambda>start limit Tz.
                      Kernel_Run parallelize_inner Tx Ty adj_x adj_y Tz
                        (int64_to_int start) (int64_to_int limit))
                   (Shard num_outer_threads num_units cost_per_unit) Tz)
      in case ran of
           None \<Rightarrow> None
         | Some Tz \<Rightarrow> Some (if adj_x then Kernel_Conjugate Tz else Tz))"

text \<open>\<open>BatchMatMul<CPUDevice, Scalar>::Compute\<close> for a complex and for a real scalar kind.\<close>

definition Compute_cpu_complex ::
  "int \<Rightarrow> (int \<Rightarrow> int \<Rightarrow> int \<Rightarrow> (int \<times> int) list) \<Rightarrow> (TensorShape \<Rightarrow> Status + (nat \<Rightarrow> complex)) \<Rightarrow>
   bool \<Rightarrow> bool \<Rightarrow> complex Tensor \<Rightarrow> complex Tensor \<Rightarrow> complex OpKernelContext" where
  "Compute_cpu_complex num_threads Shard alloc adj_x adj_y in0 in1 =
     Compute
       (\<lambda>in_x in_y adj_x adj_y out.
          map_option (Pair OK) (Launch Run Conjugate num_threads Shard in_x in_y adj_x adj_y out))
       alloc adj_x adj_y in0 in1"

definition Compute_cpu_real ::
  "int \<Rightarrow> (int \<Rightarrow> int \<Rightarrow> int \<Rightarrow> (int \<times> int) list) \<Rightarrow> (TensorShape \<Rightarrow> Status + (nat \<Rightarrow> 'a)) \<Rightarrow>
   bool \<Rightarrow> bool \<Rightarrow> ('a::semiring_0) Tensor \<Rightarrow> 'a Tensor \<Rightarrow> 'a OpKernelContext" where
  "Compute_cpu_real num_threads Shard alloc adj_x adj_y in0 in1 =
     Compute
       (\<lambda>in_x in_y adj_x adj_y out.
          map_option (Pair OK)
            (Launch Run_real Conjugate_real num_threads Shard in_x in_y adj_x adj_y out))
       alloc adj_x adj_y in0 in1"

subsection \<open>\<open>LaunchBatchMatMul<GPUDevice, Scalar>::Launch\<close>\<close>

text \<open>
  \<open>DeviceMemory<uint8>\<close>: a device pointer (\<open>None\<close> for \<open>nullptr\<close>) and a size in bytes, as
  \<open>DeviceMemoryBytes::MakeFromByteSize(ptr, bytes)\<close> builds it.
\<close>

record DeviceMemoryBytes =
  opaque :: "nat option"
  size_bytes :: nat

text \<open>
  \<open>CublasScratchAllocator\<close>: its state is \<open>allocated_tensors_\<close>, the temporaries it holds
  (address and size) until it is destroyed. \<open>allocate_temp\<close> is the context's, and fails
  with a status or yields the address of the temporary. A \<open>StatusOr<T>\<close> is a status
  (\<open>Inl\<close>) or a value (\<open>Inr\<close>).
\<close>

definition AllocateBytes ::
  "(int \<Rightarrow> Status + nat) \<Rightarrow> int \<Rightarrow> (nat \<times> nat) list \<Rightarrow>
   (Status + DeviceMemoryBytes) \<times> (nat \<times> nat) list" where
  "AllocateBytes allocate_temp byte_size allocated_tensors =
     (case allocate_temp byte_size of
        Inl allocation_status \<Rightarrow>
          (Inr \<lparr>opaque = None, size_bytes = 0\<rparr>, allocated_tensors)
      | Inr temporary_memory \<Rightarrow>
          (Inr \<lparr>opaque = Some temporary_memory, size_bytes = nat byte_size\<rparr>,
           allocated_tensors @ [(temporary_memory, nat byte_size)]))"

datatype blas_Transpose = kNoTranspose | kTranspose | kConjugateTranspose

text \<open>
  The arguments of \<open>ThenBlasGemmBatchedWithScratch\<close>, in its order; the pointer arrays
  are offsets (in elements) into the buffers they point into.
\<close>

record 'a GemmBatched =
  gemm_transa :: blas_Transpose
  gemm_transb :: blas_Transpose
  gemm_m :: nat
  gemm_n :: nat
  gemm_k :: nat
  gemm_alpha :: 'a
  gemm_a :: "nat list"
  gemm_lda :: nat
  gemm_b :: "nat list"
  gemm_ldb :: nat
  gemm_beta :: 'a
  gemm_c :: "nat list"
  gemm_ldc :: nat
  gemm_batch_count :: nat

text \<open>
  \<open>Launch\<close> on the GPU. \<open>stream\<close> is \<open>None\<close> when the device context has no stream;
  otherwise it is the stream's \<open>ThenBlasGemmBatchedWithScratch\<close> (the BLAS runtime, not
  under src/): given the arguments, the buffers behind the three pointer arrays, the
  scratch allocator's \<open>AllocateBytes\<close> and its state, it says whether the launch was
  accepted and what the output buffer holds afterwards.
\<close>

definition Launch_gpu ::
  "bool \<Rightarrow>
   ('a GemmBatched \<Rightarrow> 'a list \<Rightarrow> 'a list \<Rightarrow> 'a list \<Rightarrow>
      (int \<Rightarrow> (nat \<times> nat) list \<Rightarrow> (Status + DeviceMemoryBytes) \<times> (nat \<times> nat) list) \<Rightarrow>
      (nat \<times> nat) list \<Rightarrow> bool \<times> 'a list) option \<Rightarrow>
   (int \<Rightarrow> Status + nat) \<Rightarrow>
   ('a::{zero,one}) Tensor \<Rightarrow> 'a Tensor \<Rightarrow> bool \<Rightarrow> bool \<Rightarrow> 'a Tensor \<Rightarrow> Status \<times> 'a Tensor" where
  "Launch_gpu is_complex stream allocate_temp in_x in_y adj_x adj_y out =
     (let kTranspose_of_Scalar = (if is_complex then kConjugateTranspose else kTranspose);
          trans = [kNoTranspose, kTranspose_of_Scalar];
          m = dim_size in_x (if adj_x then 2 else 1);
          k = dim_size in_x (if adj_x then 1 else 2);
          n = dim_size in_y (if adj_y then 1 else 2);
          batch_size = dim_size in_x 0;
          blas_transpose_a = trans ! (if adj_x then 1 else 0);
          blas_transpose_b = trans ! (if adj_y then 1 else 0)
      in case stream of
           None \<Rightarrow> (Internal [Str ''No GPU stream available.''], out)
         | Some ThenBlasGemmBatchedWithScratch \<Rightarrow>
             (let a_ptrs = map (\<lambda>i. i * m * k) [0..<batch_size];
                  b_ptrs = map (\<lambda>i. i * k * n) [0..<batch_size];
                  c_ptrs = map (\<lambda>i. i * m * n) [0..<batch_size];
                  scratch_allocator = [];
                  (blas_launch_status, written) =
                    ThenBlasGemmBatchedWithScratch
                      \<lparr>gemm_transa = blas_transpose_b, gemm_transb = blas_transpose_a,
                       gemm_m = n, gemm_n = m, gemm_k = k, gemm_alpha = 1,
                       gemm_a = b_ptrs, gemm_lda = (if adj_y then k else n),
                       gemm_b = a_ptrs, gemm_ldb = (if adj_x then m else k),
                       gemm_beta = 0, gemm_c = c_ptrs, gemm_ldc = n,
                       gemm_batch_count = batch_size\<rparr>
                      (flat in_y) (flat in_x) (flat out)
                      (AllocateBytes allocate_temp) scratch_allocator
              in if \<not> blas_launch_status then
                   (Internal [Str ''Blas SGEMMBatched launch failed : a.shape='',
                              Shp (shape in_x), Str '', b.shape='', Shp (shape in_y),
                              Str '', m='', Num (int m), Str '', n='', Num (int n),
                              Str '', k='', Num (int k), Str '', batch_size='',
                              Num (int batch_size)],
                    out\<lparr>flat := written\<rparr>)
                 else (OK, out\<lparr>flat := written\<rparr>)))"

text \<open>\<open>BatchMatMul<GPUDevice, Scalar>::Compute\<close>.\<close>

definition Compute_gpu ::
  "bool \<Rightarrow>
   ('a GemmBatched \<Rightarrow> 'a list \<Rightarrow> 'a list \<Rightarrow> 'a list \<Rightarrow>
      (int \<Rightarrow> (nat \<times> nat) list \<Rightarrow> (Status + DeviceMemoryBytes) \<times> (nat \<times> nat) list) \<Rightarrow>
      (nat \<times> nat) list \<Rightarrow> bool \<times> 'a list) option \<Rightarrow>
   (int \<Rightarrow> Status + nat) \<Rightarrow> (TensorShape \<Rightarrow> Status + (nat \<Rightarrow> 'a)) \<Rightarrow>
   bool \<Rightarrow> bool \<Rightarrow> ('a::{zero,one}) Tensor \<Rightarrow> 'a Tensor \<Rightarrow> 'a OpKernelContext" where
  "Compute_gpu is_complex stream allocate_temp alloc adj_x adj_y in0 in1 =
     Compute
       (\<lambda>in_x in_y adj_x adj_y out.
          Some (Launch_gpu is_complex stream allocate_temp in_x in_y adj_x adj_y out))
       alloc adj_x adj_y in0 in1"

subsection \<open>The direct definition of the product\<close>

text \<open>
  The specification's reference: the matrix product of the adjoints, with no identity
  used. The adjoint is the conjugate transpose; for a real kind it is the transpose.
\<close>

definition Transpose :: "'a Matrix \<Rightarrow> 'a Matrix" where
  "Transpose m =
     \<lparr>dim0 = dim1 m, dim1 = dim0 m,
      coeff = concat (map (\<lambda>p. map (\<lambda>q. coeff_at m q p) [0..<dim0 m]) [0..<dim1 m])\<rparr>"

definition adjoint :: "complex Matrix \<Rightarrow> complex Matrix" where
  "adjoint m =
     \<lparr>dim0 = dim1 m, dim1 = dim0 m,
      coeff = concat (map (\<lambda>p. map (\<lambda>q. cnj (coeff_at m q p)) [0..<dim0 m]) [0..<dim1 m])\<rparr>"

definition matmul :: "('a::semiring_0) Matrix \<Rightarrow> 'a Matrix \<Rightarrow> 'a Matrix" where
  "matmul a b =
     \<lparr>dim0 = dim0 a, dim1 = dim1 b,
      coeff = concat (map (\<lambda>p. map (\<lambda>q.
                sum_list (map (\<lambda>l. coeff_at a p l * coeff_at b l q) [0..<dim1 a]))
                [0..<dim1 b]) [0..<dim0 a])\<rparr>"

definition adjoint_product :: "bool \<Rightarrow> bool \<Rightarrow> complex Matrix \<Rightarrow> complex Matrix \<Rightarrow> complex Matrix" where
  "adjoint_product adj_x adj_y x y =
     matmul (if adj_x then adjoint x else x) (if adj_y then adjoint y else y)"

definition transpose_product ::
  "bool \<Rightarrow> bool \<Rightarrow> ('a::semiring_0) Matrix \<Rightarrow> 'a Matrix \<Rightarrow> 'a Matrix" where
  "transpose_product adj_x adj_y x y =
     matmul (if adj_x then Transpose x else x) (if adj_y then Transpose y else y)"

text \<open>A matrix whose buffer has as many coefficients as its dimensions say.\<close>

definition wf_matrix :: "'a Matrix \<Rightarrow> bool" where
  "wf_matrix m = (length (coeff m) = dim0 m * dim1 m)"

text \<open>A rank-3 tensor whose buffer has as many elements as its shape says.\<close>

definition wf_tensor3 :: "'a Tensor \<Rightarrow> bool" where
  "wf_tensor3 t = (dims t = 3 \<and> length (flat t) = num_elements (shape t))"

subsection \<open>What the kernels are handed, and what they write\<close>

text \<open>
  \<open>launch_ok\<close>: the three rank-3 views as \<open>Compute\<close> hands them to \<open>Launch\<close> on a valid
  call: equal batch counts, an output of the product's dimensions, and operands whose
  contraction dimensions agree. \<open>kernel_unit\<close> is the expression the complex kernel assigns
  to chip \<open>j\<close> of the output, \<open>kernel_unit_real\<close> the one of the real kernel;
  \<open>unit_body\<close> is the loop body that assigns such an expression. \<open>fits\<close> says that the
  expressions have the dimensions of the output's chips, and \<open>chips_updated U S Tz Tz'\<close>
  that \<open>Tz'\<close> is \<open>Tz\<close> with the chips in \<open>S\<close> replaced by those of \<open>U\<close>.
\<close>

definition launch_ok :: "bool \<Rightarrow> bool \<Rightarrow> 'a Tensor \<Rightarrow> 'a Tensor \<Rightarrow> 'a Tensor \<Rightarrow> bool" where
  "launch_ok adj_x adj_y in_x in_y out =
     (wf_tensor3 in_x \<and> wf_tensor3 in_y \<and> wf_tensor3 out \<and>
      dim_size in_y 0 = dim_size in_x 0 \<and> dim_size out 0 = dim_size in_x 0 \<and>
      dim_size out 1 = (if adj_x then dim_size in_x 2 else dim_size in_x 1) \<and>
      dim_size out 2 = (if adj_y then dim_size in_y 1 else dim_size in_y 2) \<and>
      (if adj_x then dim_size in_x 1 else dim_size in_x 2) =
      (if adj_y then dim_size in_y 2 else dim_size in_y 1))"

definition kernel_unit :: "bool \<Rightarrow> bool \<Rightarrow> complex Tensor \<Rightarrow> complex Tensor \<Rightarrow> nat \<Rightarrow> complex Matrix" where
  "kernel_unit adj_x adj_y Tx Ty j =
     contract (chip0 Tx j) (if adj_x \<noteq> adj_y then conjugate (chip0 Ty j) else chip0 Ty j)
       (contract_pairs adj_x adj_y)"

definition kernel_unit_real ::
  "bool \<Rightarrow> bool \<Rightarrow> ('a::semiring_0) Tensor \<Rightarrow> 'a Tensor \<Rightarrow> nat \<Rightarrow> 'a Matrix" where
  "kernel_unit_real adj_x adj_y Tx Ty j =
     contract (chip0 Tx j) (chip0 Ty j) (contract_pairs_real adj_x adj_y)"

definition unit_body ::
  "'a Tensor \<Rightarrow> 'a Tensor \<Rightarrow> (nat \<Rightarrow> 'a Matrix) \<Rightarrow> int \<Rightarrow> 'a Tensor \<Rightarrow> 'a Tensor option" where
  "unit_body Tx Ty U i Tz =
     (if chips_in_range Tx Ty Tz i then Some (assign_chip0 Tz (nat i) (U (nat i))) else None)"

definition fits :: "(nat \<Rightarrow> 'a Matrix) \<Rightarrow> 'a Tensor \<Rightarrow> bool" where
  "fits U Tz =
     (\<forall>j<dim_size Tz 0. dim0 (U j) = dim_size Tz 1 \<and> dim1 (U j) = dim_size Tz 2 \<and>
        wf_matrix (U j))"

definition chips_updated :: "(nat \<Rightarrow> 'a Matrix) \<Rightarrow> nat set \<Rightarrow> 'a Tensor \<Rightarrow> 'a Tensor \<Rightarrow> bool" where
  "chips_updated U S Tz Tz' =
     (wf_tensor3 Tz' \<and> shape Tz' = shape Tz \<and>
      (\<forall>j<dim_size Tz 0. chip0 Tz' j = (if j \<in> S then U j else chip0 Tz j)))"

text \<open>
  A sharding of \<open>[0, N)\<close>: every block is a contiguous sub-range of it, and every index
  lies in exactly one block of the list. The order of the list is free.
\<close>

definition covers_once :: "(int \<times> int) list \<Rightarrow> int \<Rightarrow> bool" where
  "covers_once blocks j =
     (length (filter (\<lambda>(start, limit). start \<le> j \<and> j < limit) blocks) = 1)"

definition sharding :: "int \<Rightarrow> (int \<times> int) list \<Rightarrow> bool" where
  "sharding N blocks =
     ((\<forall>(start, limit) \<in> set blocks. 0 \<le> start \<and> start \<le> limit \<and> limit \<le> N) \<and>
      (\<forall>j \<in> {0..<N}. covers_once blocks j))"

subsection \<open>What a valid call is\<close>

text \<open>
  The words of the specification about shapes: the batch dimensions are all but the last
  two, \<open>rows\<close> and \<open>cols\<close> are the last two as stored. A call is valid when the ranks
  agree and are at least 2, the batch dimensions agree, and the contraction dimensions
  agree after the adjoint flags are applied. \<open>product_shape\<close> is the shape of the product
  of the (possibly adjointed) operands.
\<close>

definition batch_shape :: "'a Tensor \<Rightarrow> TensorShape" where
  "batch_shape t = take (dims t - 2) (shape t)"

definition rows :: "'a Tensor \<Rightarrow> nat" where
  "rows t = dim_size t (dims t - 2)"

definition cols :: "'a Tensor \<Rightarrow> nat" where
  "cols t = dim_size t (dims t - 1)"

definition valid_call :: "bool \<Rightarrow> bool \<Rightarrow> 'a Tensor \<Rightarrow> 'a Tensor \<Rightarrow> bool" where
  "valid_call adj_x adj_y in0 in1 =
     (dims in0 = dims in1 \<and> 2 \<le> dims in0 \<and> batch_shape in0 = batch_shape in1 \<and>
      (if adj_x then rows in0 else cols in0) = (if adj_y then cols in1 else rows in1))"

definition product_shape :: "bool \<Rightarrow> bool \<Rightarrow> 'a Tensor \<Rightarrow> 'a Tensor \<Rightarrow> TensorShape" where
  "product_shape adj_x adj_y in0 in1 =
     batch_shape in0 @ [if adj_x then cols in0 else rows in0, if adj_y then rows in1 else cols in1]"

text \<open>
  The dispatch rule in the specification's words, to be compared with \<open>dispatch\<close>: the
  cost per unit is \<open>rows(left) * cols(left) * cols(right)\<close>, with \<open>rows\<close> and \<open>cols\<close> as
  above (as stored), and the output's trailing dimension is that of the output tensor.
\<close>

definition claimed_dispatch :: "int \<Rightarrow> 'a Tensor \<Rightarrow> 'a Tensor \<Rightarrow> 'a Tensor \<Rightarrow> schedule" where
  "claimed_dispatch T left right out =
     (let N = int (dim_size left 0);
          cost = int (rows left) * int (cols left) * int (cols right);
          outputTrailingDim = int (dim_size out 2)
      in if N = 1 \<or> (cost > 128 * 256 * 256 \<and> outputTrailingDim > 1)
         then RunInline True 0 N
         else
           (let parallelizeInner = (T > N \<and> outputTrailingDim > 1);
                outerThreads = (if parallelizeInner then max 1 (T - 1) else T)
            in ShardOuter outerThreads N cost parallelizeInner))"

section \<open>\<open>Compute\<close>: validation, allocation and the degenerate cases\<close>


declare batch_dims.simps [simp del]

lemma batch_dims_ok:
  "(\<forall>j. i \<le> j \<and> j < ndims - 2 \<longrightarrow> dim_size in0 j = dim_size in1 j) \<Longrightarrow>
   batch_dims in0 in1 ndims i acc = Inr (acc @ map (dim_size in0) [i..<ndims - 2])"
proof (induction in0 in1 ndims i acc rule: batch_dims.induct)
  case (1 in0 in1 ndims i out_shape)
  show ?case
  proof (cases "i < ndims - 2")
    case True
    with 1 show ?thesis
      by (subst batch_dims.simps) (simp add: upt_conv_Cons)
  next
    case False
    then show ?thesis by (subst batch_dims.simps) simp
  qed
qed

lemma batch_dims_mismatch:
  "i \<le> k \<Longrightarrow> k < ndims - 2 \<Longrightarrow> dim_size in0 k \<noteq> dim_size in1 k \<Longrightarrow>
   (\<forall>j. i \<le> j \<and> j < k \<longrightarrow> dim_size in0 j = dim_size in1 j) \<Longrightarrow>
   batch_dims in0 in1 ndims i acc =
     Inl (InvalidArgument
                [Str ''In[0].dim('', Num (int k), Str '') and In[1].dim('', Num (int k),
                 Str '') must be the same: '', Shp (shape in0), Str '' vs '',
                 Shp (shape in1)])"
proof (induction in0 in1 ndims i acc rule: batch_dims.induct)
  case (1 in0 in1 ndims i out_shape)
  show ?case
  proof (cases "i = k")
    case True
    with 1 show ?thesis by (subst batch_dims.simps) simp
  next
    case False
    with 1 have "i < k" "i < ndims - 2" "dim_size in0 i = dim_size in1 i" by auto
    with 1 show ?thesis by (subst batch_dims.simps) simp
  qed
qed

lemma map_dim_size_take:
  "n \<le> length (shape t) \<Longrightarrow> map (dim_size t) [0..<n] = take n (shape t)"
  by (simp add: dim_size_def list_eq_iff_nth_eq)

lemma drop_last_two:
  assumes "2 \<le> length s"
  shows "drop (length s - 2) s = [s ! (length s - 2), s ! (length s - 1)]"
proof -
  have a: "length s - 2 < length s" and b: "Suc (length s - 2) = length s - 1"
    and c: "length s - 1 < length s" and d: "Suc (length s - 1) = length s"
    using assms by auto
  have "drop (length s - 2) s = s ! (length s - 2) # drop (length s - 1) s"
    using Cons_nth_drop_Suc [OF a] b by simp
  also have "drop (length s - 1) s = s ! (length s - 1) # drop (length s) s"
    using Cons_nth_drop_Suc [OF c] d by simp
  finally show ?thesis by simp
qed

lemma shape_split:
  "2 \<le> length s \<Longrightarrow> s = take (length s - 2) s @ [s ! (length s - 2), s ! (length s - 1)]"
  using drop_last_two [of s] append_take_drop_id [of "length s - 2" s] by simp

lemma num_elements_split:
  assumes "2 \<le> length s"
  shows "num_elements s =
    num_elements (take (length s - 2) s) * s ! (length s - 2) * s ! (length s - 1)"
proof -
  have "prod_list s = prod_list (take (length s - 2) s @ [s ! (length s - 2), s ! (length s - 1)])"
    using shape_split [OF assms] by simp
  then show ?thesis by (simp add: num_elements_def mult.assoc)
qed

lemma num_elements_batch_2:
  "length s = 2 \<Longrightarrow> num_elements (take (length s - 2) s) = 1"
  by (simp add: num_elements_def)


text \<open>The validation prefix of Compute on inputs that pass every check.\<close>

lemma batch_dims_valid:
  assumes "dims in0 = dims in1" "2 \<le> dims in0"
    and "\<forall>i<dims in0 - 2. dim_size in0 i = dim_size in1 i"
  shows "batch_dims in0 in1 (dims in0) 0 [] = Inr (take (dims in0 - 2) (shape in0))"
proof -
  have "batch_dims in0 in1 (dims in0) 0 [] = Inr ([] @ map (dim_size in0) [0..<dims in0 - 2])"
    by (rule batch_dims_ok) (use assms in simp)
  then show ?thesis
    by (simp add: map_dim_size_take dims_def)
qed

lemma take_batch_eq:
  assumes "dims in0 = dims in1"
    and "\<forall>i<dims in0 - 2. dim_size in0 i = dim_size in1 i"
  shows "take (dims in0 - 2) (shape in1) = take (dims in0 - 2) (shape in0)"
  using assms by (auto simp: list_eq_iff_nth_eq dims_def dim_size_def)

lemma CopyFrom_in0:
  assumes "2 \<le> dims in0"
  shows "CopyFrom in0 [if dims in0 = 2 then 1 else num_elements (take (dims in0 - 2) (shape in0)),
           dim_size in0 (dims in0 - 2), dim_size in0 (dims in0 - 1)] =
         Some \<lparr>shape = [num_elements (take (dims in0 - 2) (shape in0)),
           dim_size in0 (dims in0 - 2), dim_size in0 (dims in0 - 1)], flat = flat in0\<rparr>"
proof -
  have "num_elements (shape in0) = num_elements (take (dims in0 - 2) (shape in0)) *
      dim_size in0 (dims in0 - 2) * dim_size in0 (dims in0 - 1)"
    using num_elements_split [of "shape in0"] assms by (simp add: dims_def dim_size_def)
  moreover have "dims in0 = 2 \<Longrightarrow> num_elements (take (dims in0 - 2) (shape in0)) = 1"
    by (simp add: num_elements_def)
  ultimately show ?thesis
    by (auto simp: CopyFrom_def num_elements_def)
qed


lemma Compute_valid:
  assumes eq: "dims in0 = dims in1" and ge: "2 \<le> dims in0"
    and batch: "\<forall>i<dims in0 - 2. dim_size in0 i = dim_size in1 i"
    and inner: "(if adj_x then dim_size in0 (dims in0 - 2) else dim_size in0 (dims in0 - 1)) =
                (if adj_y then dim_size in1 (dims in0 - 1) else dim_size in1 (dims in0 - 2))"
    and bs: "bs = take (dims in0 - 2) (shape in0)"
    and d0: "d0 = (if adj_x then dim_size in0 (dims in0 - 1) else dim_size in0 (dims in0 - 2))"
    and d3: "d3 = (if adj_y then dim_size in1 (dims in0 - 2) else dim_size in1 (dims in0 - 1))"
    and x: "x = \<lparr>shape = [num_elements bs, dim_size in0 (dims in0 - 2),
                 dim_size in0 (dims in0 - 1)], flat = flat in0\<rparr>"
    and y: "y = \<lparr>shape = [num_elements bs, dim_size in1 (dims in0 - 2),
                 dim_size in1 (dims in0 - 1)], flat = flat in1\<rparr>"
  shows "Compute launch alloc adj_x adj_y in0 in1 =
    (case alloc (bs @ [d0, d3]) of
       Inl st \<Rightarrow> \<lparr>status = st, output0 = None, trace = [allocate_output (bs @ [d0, d3])],
                  returned = True\<rparr>
     | Inr mem \<Rightarrow>
        (let out = \<lparr>shape = bs @ [d0, d3], flat = map mem [0..<num_elements (bs @ [d0, d3])]\<rparr>
         in if num_elements (bs @ [d0, d3]) = 0 then
              \<lparr>status = OK, output0 = Some out, trace = [allocate_output (bs @ [d0, d3])],
               returned = True\<rparr>
            else if NumElements in0 = 0 \<or> NumElements in1 = 0 then
              \<lparr>status = OK, output0 = Some (SetZero out),
               trace = [allocate_output (bs @ [d0, d3]), SetZeroFunctor], returned = True\<rparr>
            else (case launch x y adj_x adj_y \<lparr>shape = [num_elements bs, d0, d3], flat = flat out\<rparr> of
               None \<Rightarrow> \<lparr>status = OK, output0 = Some out,
                  trace = [allocate_output (bs @ [d0, d3]),
                    LaunchBatchMatMul x y adj_x adj_y \<lparr>shape = [num_elements bs, d0, d3], flat = flat out\<rparr>],
                  returned = False\<rparr>
             | Some (st, written) \<Rightarrow> \<lparr>status = st, output0 = Some (out\<lparr>flat := flat written\<rparr>),
                  trace = [allocate_output (bs @ [d0, d3]),
                    LaunchBatchMatMul x y adj_x adj_y \<lparr>shape = [num_elements bs, d0, d3], flat = flat out\<rparr>],
                  returned = True\<rparr>)))"
proof -
  have ge1: "2 \<le> dims in1" using eq ge by simp
  have b: "batch_dims in0 in1 (dims in0) 0 [] = Inr bs"
    using batch_dims_valid [OF eq ge batch] bs by simp
  have c0: "CopyFrom in0 [if dims in0 = 2 then 1 else num_elements bs,
      dim_size in0 (dims in0 - 2), dim_size in0 (dims in0 - 1)] = Some x"
    unfolding bs x by (rule CopyFrom_in0 [OF ge])
  have t1: "take (dims in1 - 2) (shape in1) = bs"
    using take_batch_eq [OF eq batch] bs eq by simp
  have c1: "CopyFrom in1 [if dims in0 = 2 then 1 else num_elements bs,
      dim_size in1 (dims in0 - 2), dim_size in1 (dims in0 - 1)] = Some y"
    unfolding y eq t1 [symmetric] by (rule CopyFrom_in0 [OF ge1])
  have n_eq: "(if dims in0 = 2 then 1 else num_elements bs) = num_elements bs"
    using bs by (simp add: num_elements_def)
  have c2: "\<And>f a b. CopyFrom \<lparr>shape = bs @ [a, b], flat = f\<rparr> [num_elements bs, a, b] =
      Some \<lparr>shape = [num_elements bs, a, b], flat = f\<rparr>"
    by (simp add: CopyFrom_def num_elements_def)
  note c0' = c0 [unfolded n_eq] and c1' = c1 [unfolded n_eq]
  have d: "dims in1 = dims in0" using eq by simp
  show ?thesis
    unfolding d0 d3
    apply (cases adj_x; cases adj_y)
       apply (simp_all only: Compute_def Let_def d b n_eq c0' c1' sum.case option.case ge
        if_True if_False refl simp_thms split_conv)
    using inner
       apply (simp_all add: c2 NumElements_def Let_def split: sum.split option.split prod.split)
    done
qed


lemma batch_shape_eq_iff:
  assumes "dims in0 = dims in1"
  shows "batch_shape in0 = batch_shape in1 \<longleftrightarrow>
    (\<forall>i<dims in0 - 2. dim_size in0 i = dim_size in1 i)"
  using assms by (auto simp: batch_shape_def list_eq_iff_nth_eq dims_def dim_size_def)

lemma Compute_mismatch:
  assumes eq: "dims in0 = dims in1" and ge: "2 \<le> dims in0"
    and batch: "\<forall>i<dims in0 - 2. dim_size in0 i = dim_size in1 i"
    and inner: "(if adj_x then dim_size in0 (dims in0 - 2) else dim_size in0 (dims in0 - 1)) \<noteq>
                (if adj_y then dim_size in1 (dims in0 - 1) else dim_size in1 (dims in0 - 2))"
  shows "Compute launch alloc adj_x adj_y in0 in1 =
    \<lparr>status = InvalidArgument [Str ''In[0] mismatch In[1] shape: '',
         Num (int (if adj_x then dim_size in0 (dims in0 - 2) else dim_size in0 (dims in0 - 1))),
         Str '' vs. '',
         Num (int (if adj_y then dim_size in1 (dims in0 - 1) else dim_size in1 (dims in0 - 2))),
         Str '': '', Shp (shape in0), Str '' '',
         Shp (shape in1), Str '' '', Flag adj_x, Str '' '', Flag adj_y],
     output0 = None, trace = [], returned = True\<rparr>"
proof -
  define bs where "bs = take (dims in0 - 2) (shape in0)"
  have ge1: "2 \<le> dims in1" using eq ge by simp
  have b: "batch_dims in0 in1 (dims in0) 0 [] = Inr bs"
    using batch_dims_valid [OF eq ge batch] bs_def by simp
  have n_eq: "(if dims in0 = 2 then 1 else num_elements bs) = num_elements bs"
    using bs_def by (simp add: num_elements_def)
  have c0: "CopyFrom in0 [num_elements bs,
      dim_size in0 (dims in0 - 2), dim_size in0 (dims in0 - 1)] =
      Some \<lparr>shape = [num_elements bs, dim_size in0 (dims in0 - 2),
                 dim_size in0 (dims in0 - 1)], flat = flat in0\<rparr>"
    using CopyFrom_in0 [OF ge] unfolding bs_def [symmetric] n_eq .
  have t1: "take (dims in0 - 2) (shape in1) = bs"
    using take_batch_eq [OF eq batch] bs_def by simp
  have c1: "CopyFrom in1 [num_elements bs,
      dim_size in1 (dims in0 - 2), dim_size in1 (dims in0 - 1)] =
      Some \<lparr>shape = [num_elements bs, dim_size in1 (dims in0 - 2),
                 dim_size in1 (dims in0 - 1)], flat = flat in1\<rparr>"
    using CopyFrom_in0 [OF ge1] unfolding t1 eq [symmetric] n_eq .
  have d: "dims in1 = dims in0" using eq by simp
  show ?thesis
    apply (cases adj_x; cases adj_y)
       apply (simp_all only: Compute_def Let_def d b n_eq c0 c1 sum.case option.case ge
        if_True if_False refl simp_thms split_conv)
    using inner
       apply simp_all
    done
qed


lemma Compute_valid_call:
  assumes v: "valid_call adj_x adj_y in0 in1"
  shows "Compute launch alloc adj_x adj_y in0 in1 =
    (case alloc (product_shape adj_x adj_y in0 in1) of
       Inl st \<Rightarrow> \<lparr>status = st, output0 = None,
                  trace = [allocate_output (product_shape adj_x adj_y in0 in1)],
                  returned = True\<rparr>
     | Inr mem \<Rightarrow>
        (let sh = product_shape adj_x adj_y in0 in1;
             n = num_elements (batch_shape in0);
             out = \<lparr>shape = sh, flat = map mem [0..<num_elements sh]\<rparr>;
             x = \<lparr>shape = [n, rows in0, cols in0], flat = flat in0\<rparr>;
             y = \<lparr>shape = [n, rows in1, cols in1], flat = flat in1\<rparr>;
             z = \<lparr>shape = [n, if adj_x then cols in0 else rows in0,
                        if adj_y then rows in1 else cols in1], flat = flat out\<rparr>
         in if num_elements sh = 0 then
              \<lparr>status = OK, output0 = Some out, trace = [allocate_output sh], returned = True\<rparr>
            else if NumElements in0 = 0 \<or> NumElements in1 = 0 then
              \<lparr>status = OK, output0 = Some (SetZero out),
               trace = [allocate_output sh, SetZeroFunctor], returned = True\<rparr>
            else (case launch x y adj_x adj_y z of
               None \<Rightarrow> \<lparr>status = OK, output0 = Some out,
                  trace = [allocate_output sh, LaunchBatchMatMul x y adj_x adj_y z],
                  returned = False\<rparr>
             | Some (st, written) \<Rightarrow> \<lparr>status = st, output0 = Some (out\<lparr>flat := flat written\<rparr>),
                  trace = [allocate_output sh, LaunchBatchMatMul x y adj_x adj_y z],
                  returned = True\<rparr>)))"
proof -
  from v have eq: "dims in0 = dims in1" and ge: "2 \<le> dims in0"
    and bsq: "batch_shape in0 = batch_shape in1"
    and inner: "(if adj_x then dim_size in0 (dims in0 - 2) else dim_size in0 (dims in0 - 1)) =
                (if adj_y then dim_size in1 (dims in0 - 1) else dim_size in1 (dims in0 - 2))"
    by (auto simp: valid_call_def rows_def cols_def split: if_splits)
  have batch: "\<forall>i<dims in0 - 2. dim_size in0 i = dim_size in1 i"
    using batch_shape_eq_iff [OF eq] bsq by simp
  have d: "dims in1 = dims in0" using eq by simp
  show ?thesis
    unfolding product_shape_def batch_shape_def rows_def cols_def Let_def d
    by (rule Compute_valid [OF eq ge batch inner refl refl refl refl refl, unfolded Let_def])
qed


text \<open>
  C2 (amended). On every valid call the first thing \<open>Compute\<close> does to its collaborators is
  to allocate output 0, and the shape it asks for is the batch dimensions followed by the
  dimensions taken after the adjoint swaps: the first is input 0's last dimension when
  \<open>adj_x\<close> is set and its second-to-last otherwise, the second is input 1's second-to-last
  dimension when \<open>adj_y\<close> is set and its last otherwise. When the allocation succeeds,
  output 0 has that shape. As stated (the pre-swap dimensions whatever the flags) the claim
  fails as soon as a flag is set on a non-square operand, which the counterexample shows
  for shapes [2, 3] and [2, 5] with \<open>adj_x\<close> alone: the code asks for [3, 5], not [2, 5].
\<close>

theorem Compute_output_shape:
  assumes v: "valid_call adj_x adj_y in0 in1"
  shows "take 1 (trace (Compute launch alloc adj_x adj_y in0 in1)) =
     [allocate_output (batch_shape in0 @
        [if adj_x then cols in0 else rows in0, if adj_y then rows in1 else cols in1])] \<and>
   (case alloc (batch_shape in0 @
        [if adj_x then cols in0 else rows in0, if adj_y then rows in1 else cols in1]) of
      Inl st \<Rightarrow> output0 (Compute launch alloc adj_x adj_y in0 in1) = None
    | Inr mem \<Rightarrow> map_option shape (output0 (Compute launch alloc adj_x adj_y in0 in1)) =
        Some (batch_shape in0 @
          [if adj_x then cols in0 else rows in0, if adj_y then rows in1 else cols in1]))"
proof (cases "alloc (product_shape adj_x adj_y in0 in1)")
  case (Inl st)
  then have "Compute launch alloc adj_x adj_y in0 in1 =
      \<lparr>status = st, output0 = None,
       trace = [allocate_output (product_shape adj_x adj_y in0 in1)], returned = True\<rparr>"
    by (simp add: Compute_valid_call [OF v])
  with Inl show ?thesis by (simp add: product_shape_def)
next
  case (Inr mem)
  then have "take 1 (trace (Compute launch alloc adj_x adj_y in0 in1)) =
       [allocate_output (product_shape adj_x adj_y in0 in1)] \<and>
     map_option shape (output0 (Compute launch alloc adj_x adj_y in0 in1)) =
       Some (product_shape adj_x adj_y in0 in1)"
    by (simp add: Compute_valid_call [OF v] Let_def SetZero_def split: option.split prod.split)
  with Inr show ?thesis by (simp add: product_shape_def)
qed


theorem Compute_output_shape_witness:
  "valid_call True False \<lparr>shape = [2, 3], flat = [1, 2, 3, 4, 5, 6 :: int]\<rparr>
      \<lparr>shape = [2, 5], flat = [1, 2, 3, 4, 5, 6, 7, 8, 9, 10]\<rparr> \<and>
   take 1 (trace (Compute (\<lambda>x y ax ay z. Some (OK, z)) (\<lambda>sh. Inr (\<lambda>i. 0)) True False
      \<lparr>shape = [2, 3], flat = [1, 2, 3, 4, 5, 6 :: int]\<rparr>
      \<lparr>shape = [2, 5], flat = [1, 2, 3, 4, 5, 6, 7, 8, 9, 10]\<rparr>)) =
     [allocate_output [3, 5]]"
  using Compute_output_shape [of True False "\<lparr>shape = [2, 3], flat = [1, 2, 3, 4, 5, 6 :: int]\<rparr>"
      "\<lparr>shape = [2, 5], flat = [1, 2, 3, 4, 5, 6, 7, 8, 9, 10]\<rparr>"
      "\<lambda>x y ax ay z. Some (OK, z)" "\<lambda>sh. Inr (\<lambda>i. 0)"]
  by (simp add: valid_call_def batch_shape_def rows_def cols_def dims_def dim_size_def)

theorem Compute_output_shape_pre_swap_counterexample:
  "take 1 (trace (Compute (\<lambda>x y ax ay z. Some (OK, z)) (\<lambda>sh. Inr (\<lambda>i. 0)) True False
      \<lparr>shape = [2, 3], flat = [1, 2, 3, 4, 5, 6 :: int]\<rparr>
      \<lparr>shape = [2, 5], flat = [1, 2, 3, 4, 5, 6, 7, 8, 9, 10]\<rparr>)) \<noteq>
     [allocate_output (batch_shape \<lparr>shape = [2, 3], flat = [1, 2, 3, 4, 5, 6 :: int]\<rparr> @
        [rows \<lparr>shape = [2, 3], flat = [1, 2, 3, 4, 5, 6 :: int]\<rparr>,
         cols \<lparr>shape = [2, 5], flat = [1, 2, 3, 4, 5, 6, 7, 8, 9, 10 :: int]\<rparr>])]"
proof -
  have "valid_call True False \<lparr>shape = [2, 3], flat = [1, 2, 3, 4, 5, 6 :: int]\<rparr>
      \<lparr>shape = [2, 5], flat = [1, 2, 3, 4, 5, 6, 7, 8, 9, 10]\<rparr>"
    by (simp add: valid_call_def batch_shape_def rows_def cols_def dims_def dim_size_def)
  from Compute_valid_call [OF this] show ?thesis
    by (simp add: product_shape_def batch_shape_def rows_def cols_def dims_def dim_size_def
        Let_def num_elements_def NumElements_def)
qed

text \<open>
  C6. A call whose inputs differ in rank, have rank below 2, differ at a batch dimension,
  or disagree on the contraction dimension after the adjoint swaps ends with an
  invalid-argument status, no output allocated and no collaborator called. The message
  carries both shapes when the ranks differ, the rank when it is below 2, the index of
  the first differing batch dimension with both shapes, and, for the contraction
  dimension, the two sizes, both shapes and both adjoint flags. The last conjunct says
  that these cases cover every call that is not valid.
\<close>

theorem Compute_invalid_argument:
  "(dims in0 \<noteq> dims in1 \<longrightarrow>
      Compute launch alloc adj_x adj_y in0 in1 =
        \<lparr>status = InvalidArgument [Str ''In[0] and In[1] has different ndims: '',
                    Shp (shape in0), Str '' vs. '', Shp (shape in1)],
         output0 = None, trace = [], returned = True\<rparr>) \<and>
   (dims in0 = dims in1 \<and> dims in0 < 2 \<longrightarrow>
      Compute launch alloc adj_x adj_y in0 in1 =
        \<lparr>status = InvalidArgument [Str ''In[0] and In[1] ndims must be >= 2: '',
                    Num (int (dims in0))],
         output0 = None, trace = [], returned = True\<rparr>) \<and>
   (dims in0 = dims in1 \<and> 2 \<le> dims in0 \<and> i < dims in0 - 2 \<and>
    dim_size in0 i \<noteq> dim_size in1 i \<and> (\<forall>j<i. dim_size in0 j = dim_size in1 j) \<longrightarrow>
      Compute launch alloc adj_x adj_y in0 in1 =
        \<lparr>status = InvalidArgument
           [Str ''In[0].dim('', Num (int i), Str '') and In[1].dim('', Num (int i),
            Str '') must be the same: '', Shp (shape in0), Str '' vs '', Shp (shape in1)],
         output0 = None, trace = [], returned = True\<rparr>) \<and>
   (dims in0 = dims in1 \<and> 2 \<le> dims in0 \<and> batch_shape in0 = batch_shape in1 \<and>
    (if adj_x then rows in0 else cols in0) \<noteq> (if adj_y then cols in1 else rows in1) \<longrightarrow>
      Compute launch alloc adj_x adj_y in0 in1 =
        \<lparr>status = InvalidArgument [Str ''In[0] mismatch In[1] shape: '',
           Num (int (if adj_x then rows in0 else cols in0)), Str '' vs. '',
           Num (int (if adj_y then cols in1 else rows in1)), Str '': '',
           Shp (shape in0), Str '' '', Shp (shape in1), Str '' '',
           Flag adj_x, Str '' '', Flag adj_y],
         output0 = None, trace = [], returned = True\<rparr>) \<and>
   (\<not> valid_call adj_x adj_y in0 in1 \<longrightarrow>
      (\<exists>args. Compute launch alloc adj_x adj_y in0 in1 =
        \<lparr>status = InvalidArgument args, output0 = None, trace = [], returned = True\<rparr>))"
proof -
  let ?C = "Compute launch alloc adj_x adj_y in0 in1"
  have rank: "dims in0 \<noteq> dims in1 \<Longrightarrow> ?C =
        \<lparr>status = InvalidArgument [Str ''In[0] and In[1] has different ndims: '',
                    Shp (shape in0), Str '' vs. '', Shp (shape in1)],
         output0 = None, trace = [], returned = True\<rparr>"
    by (simp add: Compute_def)
  have small: "dims in0 = dims in1 \<Longrightarrow> dims in0 < 2 \<Longrightarrow> ?C =
        \<lparr>status = InvalidArgument [Str ''In[0] and In[1] ndims must be >= 2: '',
                    Num (int (dims in0))],
         output0 = None, trace = [], returned = True\<rparr>"
    by (simp add: Compute_def Let_def)
  have batch: "?C =
        \<lparr>status = InvalidArgument
           [Str ''In[0].dim('', Num (int k), Str '') and In[1].dim('', Num (int k),
            Str '') must be the same: '', Shp (shape in0), Str '' vs '', Shp (shape in1)],
         output0 = None, trace = [], returned = True\<rparr>"
    if "dims in0 = dims in1" "2 \<le> dims in0" "k < dims in0 - 2"
      "dim_size in0 k \<noteq> dim_size in1 k" "\<forall>j<k. dim_size in0 j = dim_size in1 j" for k
  proof -
    have "batch_dims in0 in1 (dims in0) 0 [] = Inl (InvalidArgument
           [Str ''In[0].dim('', Num (int k), Str '') and In[1].dim('', Num (int k),
            Str '') must be the same: '', Shp (shape in0), Str '' vs '', Shp (shape in1)])"
      by (rule batch_dims_mismatch) (use that in simp_all)
    with that(1,2) show ?thesis
      by (simp add: Compute_def Let_def)
  qed
  have inner: "?C =
        \<lparr>status = InvalidArgument [Str ''In[0] mismatch In[1] shape: '',
           Num (int (if adj_x then rows in0 else cols in0)), Str '' vs. '',
           Num (int (if adj_y then cols in1 else rows in1)), Str '': '',
           Shp (shape in0), Str '' '', Shp (shape in1), Str '' '',
           Flag adj_x, Str '' '', Flag adj_y],
         output0 = None, trace = [], returned = True\<rparr>"
    if eq: "dims in0 = dims in1" and ge: "2 \<le> dims in0"
      and bs: "batch_shape in0 = batch_shape in1"
      and ne: "(if adj_x then rows in0 else cols in0) \<noteq> (if adj_y then cols in1 else rows in1)"
  proof -
    have b: "\<forall>i<dims in0 - 2. dim_size in0 i = dim_size in1 i"
      using batch_shape_eq_iff [OF eq] bs by simp
    have d: "dims in1 = dims in0" using eq by simp
    have ne': "(if adj_x then dim_size in0 (dims in0 - 2) else dim_size in0 (dims in0 - 1)) \<noteq>
                (if adj_y then dim_size in1 (dims in0 - 1) else dim_size in1 (dims in0 - 2))"
      using ne unfolding rows_def cols_def d .
    show ?thesis
      unfolding rows_def cols_def d by (rule Compute_mismatch [OF eq ge b ne'])
  qed
  have any: "\<exists>args. ?C =
        \<lparr>status = InvalidArgument args, output0 = None, trace = [], returned = True\<rparr>"
    if nv: "\<not> valid_call adj_x adj_y in0 in1"
  proof (cases "dims in0 = dims in1")
    case False
    then show ?thesis using rank by blast
  next
    case eq: True
    show ?thesis
    proof (cases "2 \<le> dims in0")
      case False
      then show ?thesis using small [OF eq] by fastforce
    next
      case ge: True
      show ?thesis
      proof (cases "batch_shape in0 = batch_shape in1")
        case True
        with nv eq ge
        have "(if adj_x then rows in0 else cols in0) \<noteq> (if adj_y then cols in1 else rows in1)"
          by (simp add: valid_call_def)
        from inner [OF eq ge True this] show ?thesis by blast
      next
        case False
        then have ex: "\<exists>k. k < dims in0 - 2 \<and> dim_size in0 k \<noteq> dim_size in1 k"
          using batch_shape_eq_iff [OF eq] by auto
        define k where "k = (LEAST k. k < dims in0 - 2 \<and> dim_size in0 k \<noteq> dim_size in1 k)"
        have k: "k < dims in0 - 2 \<and> dim_size in0 k \<noteq> dim_size in1 k"
          unfolding k_def using ex by (rule LeastI_ex)
        have "\<forall>j<k. dim_size in0 j = dim_size in1 j"
        proof (intro allI impI)
          fix j assume "j < k"
          then have "\<not> (j < dims in0 - 2 \<and> dim_size in0 j \<noteq> dim_size in1 j)"
            unfolding k_def by (rule not_less_Least)
          with \<open>j < k\<close> k show "dim_size in0 j = dim_size in1 j" by simp
        qed
        with batch [OF eq ge] k show ?thesis by blast
      qed
    qed
  qed
  show ?thesis
    using rank small batch inner any by blast
qed


theorem Compute_invalid_argument_witness:
  "Compute (\<lambda>x y ax ay z. Some (OK, z)) (\<lambda>sh. Inr (\<lambda>i. 0)) False False
      \<lparr>shape = [2, 3], flat = replicate 6 (0 :: int)\<rparr> \<lparr>shape = [2, 3, 4], flat = replicate 24 0\<rparr> =
     \<lparr>status = InvalidArgument [Str ''In[0] and In[1] has different ndims: '',
                    Shp [2, 3], Str '' vs. '', Shp [2, 3, 4]],
      output0 = None, trace = [], returned = True\<rparr> \<and>
   Compute (\<lambda>x y ax ay z. Some (OK, z)) (\<lambda>sh. Inr (\<lambda>i. 0)) False False
      \<lparr>shape = [3], flat = replicate 3 (0 :: int)\<rparr> \<lparr>shape = [3], flat = replicate 3 0\<rparr> =
     \<lparr>status = InvalidArgument [Str ''In[0] and In[1] ndims must be >= 2: '', Num 1],
      output0 = None, trace = [], returned = True\<rparr> \<and>
   Compute (\<lambda>x y ax ay z. Some (OK, z)) (\<lambda>sh. Inr (\<lambda>i. 0)) False False
      \<lparr>shape = [2, 3, 4, 5], flat = replicate 120 (0 :: int)\<rparr>
      \<lparr>shape = [2, 7, 5, 6], flat = replicate 420 0\<rparr> =
     \<lparr>status = InvalidArgument
           [Str ''In[0].dim('', Num 1, Str '') and In[1].dim('', Num 1,
            Str '') must be the same: '', Shp [2, 3, 4, 5], Str '' vs '', Shp [2, 7, 5, 6]],
      output0 = None, trace = [], returned = True\<rparr> \<and>
   Compute (\<lambda>x y ax ay z. Some (OK, z)) (\<lambda>sh. Inr (\<lambda>i. 0)) False False
      \<lparr>shape = [4, 5], flat = replicate 20 (0 :: int)\<rparr> \<lparr>shape = [6, 7], flat = replicate 42 0\<rparr> =
     \<lparr>status = InvalidArgument [Str ''In[0] mismatch In[1] shape: '', Num 5, Str '' vs. '',
           Num 6, Str '': '', Shp [4, 5], Str '' '', Shp [6, 7], Str '' '',
           Flag False, Str '' '', Flag False],
      output0 = None, trace = [], returned = True\<rparr>"
  using
    Compute_invalid_argument [of "\<lparr>shape = [2, 3], flat = replicate 6 (0 :: int)\<rparr>"
      "\<lparr>shape = [2, 3, 4], flat = replicate 24 0\<rparr>"
      "\<lambda>x y ax ay z. Some (OK, z)" "\<lambda>sh. Inr (\<lambda>i. 0)" False False 0]
    Compute_invalid_argument [of "\<lparr>shape = [3], flat = replicate 3 (0 :: int)\<rparr>"
      "\<lparr>shape = [3], flat = replicate 3 0\<rparr>"
      "\<lambda>x y ax ay z. Some (OK, z)" "\<lambda>sh. Inr (\<lambda>i. 0)" False False 0]
    Compute_invalid_argument [of "\<lparr>shape = [2, 3, 4, 5], flat = replicate 120 (0 :: int)\<rparr>"
      "\<lparr>shape = [2, 7, 5, 6], flat = replicate 420 0\<rparr>"
      "\<lambda>x y ax ay z. Some (OK, z)" "\<lambda>sh. Inr (\<lambda>i. 0)" False False 1]
    Compute_invalid_argument [of "\<lparr>shape = [4, 5], flat = replicate 20 (0 :: int)\<rparr>"
      "\<lparr>shape = [6, 7], flat = replicate 42 0\<rparr>"
      "\<lambda>x y ax ay z. Some (OK, z)" "\<lambda>sh. Inr (\<lambda>i. 0)" False False 0]
  by (simp add: dims_def dim_size_def batch_shape_def rows_def cols_def)

text \<open>
  C7. On a valid call whose output is not empty while one of the inputs has no elements,
  \<open>Compute\<close> returns with status OK, the whole output set to zero, and only the
  allocation and the zero fill in its trace: the backend is not launched.
\<close>

theorem Compute_zero_fill:
  assumes "valid_call adj_x adj_y in0 in1"
    and "alloc (product_shape adj_x adj_y in0 in1) = Inr mem"
    and "num_elements (product_shape adj_x adj_y in0 in1) \<noteq> 0"
    and "NumElements in0 = 0 \<or> NumElements in1 = 0"
  shows "Compute launch alloc adj_x adj_y in0 in1 =
    \<lparr>status = OK,
     output0 = Some \<lparr>shape = product_shape adj_x adj_y in0 in1,
                     flat = replicate (num_elements (product_shape adj_x adj_y in0 in1)) 0\<rparr>,
     trace = [allocate_output (product_shape adj_x adj_y in0 in1), SetZeroFunctor],
     returned = True\<rparr>"
  using assms(2-4)
  by (simp add: Compute_valid_call [OF assms(1)] Let_def SetZero_def map_replicate_const)

theorem Compute_zero_fill_witness:
  "valid_call False False \<lparr>shape = [2, 0], flat = []\<rparr> \<lparr>shape = [0, 3], flat = [] :: int list\<rparr> \<and>
   NumElements \<lparr>shape = [2, 0], flat = [] :: int list\<rparr> = 0 \<and>
   Compute (\<lambda>x y ax ay z. Some (OK, z)) (\<lambda>sh. Inr (\<lambda>i. 7)) False False
      \<lparr>shape = [2, 0], flat = []\<rparr> \<lparr>shape = [0, 3], flat = [] :: int list\<rparr> =
    \<lparr>status = OK, output0 = Some \<lparr>shape = [2, 3], flat = [0, 0, 0, 0, 0, 0]\<rparr>,
     trace = [allocate_output [2, 3], SetZeroFunctor], returned = True\<rparr>"
  using Compute_zero_fill [of False False "\<lparr>shape = [2, 0], flat = []\<rparr>"
      "\<lparr>shape = [0, 3], flat = [] :: int list\<rparr>" "\<lambda>sh. Inr (\<lambda>i. 7)" "\<lambda>i. 7"
      "\<lambda>x y ax ay z. Some (OK, z)"]
  by (simp add: valid_call_def product_shape_def batch_shape_def rows_def cols_def dims_def
      dim_size_def num_elements_def NumElements_def numeral_eq_Suc)

text \<open>
  C8. On a valid call whose output shape has no elements, \<open>Compute\<close> returns with status
  OK right after the allocation: output 0 is the tensor as allocated, and the trace holds
  the allocation alone (no zero fill, no launch).
\<close>

theorem Compute_empty_output:
  assumes "valid_call adj_x adj_y in0 in1"
    and "alloc (product_shape adj_x adj_y in0 in1) = Inr mem"
    and "num_elements (product_shape adj_x adj_y in0 in1) = 0"
  shows "Compute launch alloc adj_x adj_y in0 in1 =
    \<lparr>status = OK,
     output0 = Some \<lparr>shape = product_shape adj_x adj_y in0 in1,
                     flat = map mem [0..<num_elements (product_shape adj_x adj_y in0 in1)]\<rparr>,
     trace = [allocate_output (product_shape adj_x adj_y in0 in1)],
     returned = True\<rparr>"
  using assms(2-3)
  by (simp add: Compute_valid_call [OF assms(1)] Let_def)

theorem Compute_empty_output_witness:
  "valid_call False False \<lparr>shape = [0, 3], flat = []\<rparr>
      \<lparr>shape = [3, 4], flat = [1, 2, 3, 4, 5, 6, 7, 8, 9, 10, 11, 12 :: int]\<rparr> \<and>
   Compute (\<lambda>x y ax ay z. Some (OK, z)) (\<lambda>sh. Inr (\<lambda>i. 7)) False False
      \<lparr>shape = [0, 3], flat = []\<rparr>
      \<lparr>shape = [3, 4], flat = [1, 2, 3, 4, 5, 6, 7, 8, 9, 10, 11, 12 :: int]\<rparr> =
    \<lparr>status = OK, output0 = Some \<lparr>shape = [0, 4], flat = []\<rparr>,
     trace = [allocate_output [0, 4]], returned = True\<rparr>"
  using Compute_empty_output [of False False "\<lparr>shape = [0, 3], flat = []\<rparr>"
      "\<lparr>shape = [3, 4], flat = [1, 2, 3, 4, 5, 6, 7, 8, 9, 10, 11, 12 :: int]\<rparr>"
      "\<lambda>sh. Inr (\<lambda>i. 7)" "\<lambda>i. 7" "\<lambda>x y ax ay z. Some (OK, z)"]
  by (simp add: valid_call_def product_shape_def batch_shape_def rows_def cols_def dims_def
      dim_size_def num_elements_def)

section \<open>The kernel\<close>


subsection \<open>Tables in row-major order\<close>

lemma table_length:
  "length (concat (map (\<lambda>p. map (f p) [0..<n]) [0..<m])) = m * n"
  by (induction m) simp_all

lemma index_in_range:
  assumes "p < m" "q < n"
  shows "p * n + q < m * (n::nat)"
proof -
  have "p * n + q < Suc p * n" using assms(2) by simp
  also have "\<dots> \<le> m * n" using assms(1) by (intro mult_le_mono1) simp
  finally show ?thesis .
qed

lemma table_nth:
  "p < m \<Longrightarrow> q < n \<Longrightarrow> concat (map (\<lambda>p. map (f p) [0..<n]) [0..<m]) ! (p * n + q) = f p q"
proof (induction m)
  case 0
  then show ?case by simp
next
  case (Suc m)
  show ?case
  proof (cases "p < m")
    case True
    then have "p * n + q < m * n"
      using Suc.prems(2) by (rule index_in_range)
    with True Suc show ?thesis
      by (simp add: nth_append table_length)
  next
    case False
    with Suc.prems have "p = m" by simp
    with Suc.prems show ?thesis
      by (simp add: nth_append table_length)
  qed
qed

lemma table_cong:
  "(\<And>p q. p < m \<Longrightarrow> q < n \<Longrightarrow> f p q = g p q) \<Longrightarrow>
   concat (map (\<lambda>p. map (f p) [0..<n]) [0..<m]) = concat (map (\<lambda>p. map (g p) [0..<n]) [0..<m])"
  by (rule arg_cong [where f = concat]) simp

lemma table_map:
  "map h (concat (map (\<lambda>p. map (f p) [0..<n]) [0..<m])) =
   concat (map (\<lambda>p. map (\<lambda>q. h (f p q)) [0..<n]) [0..<m])"
  by (simp add: map_concat comp_def)

lemma cnj_sum_list: "cnj (sum_list (map f xs)) = sum_list (map (\<lambda>x. cnj (f x)) xs)"
  by (induction xs) simp_all

lemma sum_list_cong_upt:
  "(\<And>l. l < k \<Longrightarrow> f l = g l) \<Longrightarrow> sum_list (map f [0..<k]) = sum_list (map g [0..<k])"
  by (rule arg_cong [where f = sum_list]) simp

lemma coeff_at_conjugate:
  "wf_matrix m \<Longrightarrow> p < dim0 m \<Longrightarrow> q < dim1 m \<Longrightarrow>
   coeff_at (conjugate m) p q = cnj (coeff_at m p q)"
  by (simp add: coeff_at_def conjugate_def wf_matrix_def index_in_range)

lemma coeff_at_table:
  "p < m \<Longrightarrow> q < n \<Longrightarrow>
   coeff_at \<lparr>dim0 = m, dim1 = n, coeff = concat (map (\<lambda>p. map (f p) [0..<n]) [0..<m])\<rparr> p q =
   f p q"
  by (simp add: coeff_at_def table_nth)

lemma coeff_at_adjoint:
  "p < dim1 m \<Longrightarrow> q < dim0 m \<Longrightarrow> coeff_at (adjoint m) p q = cnj (coeff_at m q p)"
  by (simp add: adjoint_def coeff_at_table)

lemma coeff_at_Transpose:
  "p < dim1 m \<Longrightarrow> q < dim0 m \<Longrightarrow> coeff_at (Transpose m) p q = coeff_at m q p"
  by (simp add: Transpose_def coeff_at_table)


subsection \<open>One unit of the batch\<close>

lemma matrix_table_eqI:
  assumes "m = m'" "n = n'" "\<And>p q. p < m \<Longrightarrow> q < n \<Longrightarrow> f p q = g p q"
  shows "\<lparr>dim0 = m, dim1 = n, coeff = concat (map (\<lambda>p. map (f p) [0..<n]) [0..<m])\<rparr> =
         \<lparr>dim0 = m', dim1 = n', coeff = concat (map (\<lambda>p. map (g p) [0..<n']) [0..<m'])\<rparr>"
  using assms table_cong [of m n f g] by simp

lemma conjugate_table:
  "conjugate \<lparr>dim0 = m, dim1 = n, coeff = concat (map (\<lambda>p. map (f p) [0..<n]) [0..<m])\<rparr> =
   \<lparr>dim0 = m, dim1 = n, coeff = concat (map (\<lambda>p. map (\<lambda>q. cnj (f p q)) [0..<n]) [0..<m])\<rparr>"
  by (simp add: conjugate_def table_map)

lemma dims_conjugate [simp]: "dim0 (conjugate m) = dim0 m" "dim1 (conjugate m) = dim1 m"
  by (simp_all add: conjugate_def)

lemma dims_adjoint [simp]: "dim0 (adjoint m) = dim1 m" "dim1 (adjoint m) = dim0 m"
  by (simp_all add: adjoint_def)

lemma dims_Transpose [simp]: "dim0 (Transpose m) = dim1 m" "dim1 (Transpose m) = dim0 m"
  by (simp_all add: Transpose_def)

lemma unit_FF:
  "contract x y (Suc 0, 0) = matmul x y"
  by (simp add: contract_def matmul_def Let_def)

lemma unit_FT:
  assumes "wf_matrix y" "dim1 x = dim1 y"
  shows "contract x (conjugate y) (Suc 0, Suc 0) = matmul x (adjoint y)"
  using assms
  apply (simp add: contract_def matmul_def Let_def)
  apply (rule table_cong, rule sum_list_cong_upt)
  apply (simp add: coeff_at_conjugate coeff_at_adjoint)
  done

lemma unit_TF:
  assumes "wf_matrix y" "dim0 x = dim0 y"
  shows "conjugate (contract x (conjugate y) (0, 0)) = matmul (adjoint x) y"
  using assms
  apply (simp add: contract_def matmul_def Let_def conjugate_table cnj_sum_list)
  apply (rule table_cong, rule sum_list_cong_upt)
  apply (simp add: coeff_at_conjugate coeff_at_adjoint)
  done

lemma unit_TT:
  assumes "dim0 x = dim1 y"
  shows "conjugate (contract x y (0, Suc 0)) = matmul (adjoint x) (adjoint y)"
  using assms
  apply (simp add: contract_def matmul_def Let_def conjugate_table cnj_sum_list)
  apply (rule table_cong, rule sum_list_cong_upt)
  apply (simp add: coeff_at_adjoint)
  done

lemma unit_real_FT:
  assumes "dim1 x = dim1 y"
  shows "contract x y (Suc 0, Suc 0) = matmul x (Transpose y)"
  using assms
  apply (simp add: contract_def matmul_def Let_def)
  apply (rule table_cong, rule sum_list_cong_upt)
  apply (simp add: coeff_at_Transpose)
  done

lemma unit_real_TF:
  "contract x y (0, 0) = matmul (Transpose x) y"
  apply (simp add: contract_def matmul_def Let_def)
  apply (rule table_cong, rule sum_list_cong_upt)
  apply (simp add: coeff_at_Transpose)
  done

lemma unit_real_TT:
  assumes "dim0 x = dim1 y"
  shows "contract x y (0, Suc 0) = matmul (Transpose x) (Transpose y)"
  using assms
  apply (simp add: contract_def matmul_def Let_def)
  apply (rule table_cong, rule sum_list_cong_upt)
  apply (simp add: coeff_at_Transpose)
  done


subsection \<open>Chips of a rank-3 tensor\<close>

lemma splice_same:
  "off \<le> length F \<Longrightarrow> take (length E) (drop off (take off F @ E @ R)) = E"
  by simp

lemma splice_before:
  "a + w \<le> off \<Longrightarrow> off \<le> length F \<Longrightarrow>
   take w (drop a (take off F @ R)) = take w (drop a F)"
  by (simp add: take_drop min_def)

lemma splice_after:
  "off + length E \<le> a \<Longrightarrow> off \<le> length F \<Longrightarrow>
   drop a (take off F @ E @ drop (off + length E) F) = drop a F"
  by simp

lemma wf_tensor3_shape:
  assumes "wf_tensor3 t"
  shows "shape t = [dim_size t 0, dim_size t 1, dim_size t 2]"
    and "length (flat t) = dim_size t 0 * (dim_size t 1 * dim_size t 2)"
proof -
  from assms have l: "length (shape t) = 3" by (simp add: wf_tensor3_def dims_def)
  then obtain a b c where s: "shape t = [a, b, c]"
    by (auto simp: length_Suc_conv numeral_3_eq_3)
  then show "shape t = [dim_size t 0, dim_size t 1, dim_size t 2]"
    by (simp add: dim_size_def)
  from assms s show "length (flat t) = dim_size t 0 * (dim_size t 1 * dim_size t 2)"
    by (simp add: wf_tensor3_def num_elements_def dim_size_def)
qed

lemma dim_size_assign [simp]: "dim_size (assign_chip0 Tz i e) k = dim_size Tz k"
  by (simp add: assign_chip0_def dim_size_def Let_def)

lemma shape_assign [simp]: "shape (assign_chip0 Tz i e) = shape Tz"
  by (simp add: assign_chip0_def Let_def)

lemma chunk_bound:
  "i < (n::nat) \<Longrightarrow> i * w + w \<le> n * w"
  by (metis Suc_leI mult_Suc mult_le_mono1 add.commute)

lemma chunk_start:
  "i < (n::nat) \<Longrightarrow> i * w \<le> n * w"
  by (simp add: mult_le_mono1)

lemma pos_width: "k < n * w \<Longrightarrow> 0 < (w::nat)"
  by (cases w) simp_all

lemma length_assign:
  assumes "wf_tensor3 Tz" "i < dim_size Tz 0" "length (coeff e) = dim_size Tz 1 * dim_size Tz 2"
  shows "length (flat (assign_chip0 Tz i e)) = length (flat Tz)"
  using assms chunk_bound [of i "dim_size Tz 0" "dim_size Tz 1 * dim_size Tz 2"]
  by (simp add: assign_chip0_def Let_def wf_tensor3_shape(2))

lemma wf_assign:
  assumes "wf_tensor3 Tz" "i < dim_size Tz 0" "length (coeff e) = dim_size Tz 1 * dim_size Tz 2"
  shows "wf_tensor3 (assign_chip0 Tz i e)"
  using assms length_assign [OF assms] by (simp add: wf_tensor3_def dims_def)

lemma flat_assign:
  "flat (assign_chip0 Tz i e) =
     take (i * (dim_size Tz 1 * dim_size Tz 2)) (flat Tz) @ coeff e @
     drop (i * (dim_size Tz 1 * dim_size Tz 2) + length (coeff e)) (flat Tz)"
  by (simp add: assign_chip0_def Let_def)

lemma chip0_assign:
  "chip0 (assign_chip0 Tz i e) j =
     \<lparr>dim0 = dim_size Tz 1, dim1 = dim_size Tz 2,
      coeff = take (dim_size Tz 1 * dim_size Tz 2) (drop (j * (dim_size Tz 1 * dim_size Tz 2))
        (take (i * (dim_size Tz 1 * dim_size Tz 2)) (flat Tz) @ coeff e @
         drop (i * (dim_size Tz 1 * dim_size Tz 2) + length (coeff e)) (flat Tz)))\<rparr>"
  unfolding chip0_def dim_size_assign flat_assign ..

lemma chip0_assign_same:
  assumes "wf_tensor3 Tz" "i < dim_size Tz 0" "length (coeff e) = dim_size Tz 1 * dim_size Tz 2"
  shows "chip0 (assign_chip0 Tz i e) i =
    \<lparr>dim0 = dim_size Tz 1, dim1 = dim_size Tz 2, coeff = coeff e\<rparr>"
proof -
  let ?w = "dim_size Tz 1 * dim_size Tz 2"
  have "i * ?w \<le> length (flat Tz)"
    unfolding wf_tensor3_shape(2) [OF assms(1)] using assms(2) by (rule chunk_start)
  then have "take (length (coeff e)) (drop (i * ?w)
      (take (i * ?w) (flat Tz) @ coeff e @ drop (i * ?w + length (coeff e)) (flat Tz))) = coeff e"
    by (rule splice_same)
  then have "take ?w (drop (i * ?w)
      (take (i * ?w) (flat Tz) @ coeff e @ drop (i * ?w + length (coeff e)) (flat Tz))) = coeff e"
    unfolding assms(3) .
  then show ?thesis
    unfolding chip0_assign by (rule arg_cong)
qed

lemma chip0_assign_other:
  assumes "wf_tensor3 Tz" "i < dim_size Tz 0" "length (coeff e) = dim_size Tz 1 * dim_size Tz 2"
    and "j \<noteq> i"
  shows "chip0 (assign_chip0 Tz i e) j = chip0 Tz j"
proof -
  let ?w = "dim_size Tz 1 * dim_size Tz 2"
  have off: "i * ?w \<le> length (flat Tz)"
    unfolding wf_tensor3_shape(2) [OF assms(1)] using assms(2) by (rule chunk_start)
  have "take ?w (drop (j * ?w)
      (take (i * ?w) (flat Tz) @ coeff e @ drop (i * ?w + length (coeff e)) (flat Tz))) =
      take ?w (drop (j * ?w) (flat Tz))"
  proof (cases "j < i")
    case True
    then have "j * ?w + ?w \<le> i * ?w" by (rule chunk_bound)
    then show ?thesis using off by (rule splice_before)
  next
    case False
    with assms(4) have "i < j" by simp
    then have "i * ?w + ?w \<le> j * ?w" by (rule chunk_bound)
    then have "i * ?w + length (coeff e) \<le> j * ?w" unfolding assms(3) .
    then have "drop (j * ?w)
      (take (i * ?w) (flat Tz) @ coeff e @ drop (i * ?w + length (coeff e)) (flat Tz)) =
      drop (j * ?w) (flat Tz)" using off by (rule splice_after)
    then show ?thesis by (rule arg_cong)
  qed
  then show ?thesis
    by (simp only: chip0_assign chip0_def [of Tz])
qed

text \<open>A well-formed tensor is determined by its shape and its chips.\<close>

lemma flat_nth_chip:
  assumes "k < n * w" "length F = n * w"
  shows "F ! k = take w (drop ((k div w) * w) F) ! (k mod w)"
proof -
  have w: "0 < w" using assms(1) by (rule pos_width)
  then have m: "k mod w < w" by simp
  have e: "(k div w) * w + k mod w = k" by (simp add: div_mult_mod_eq)
  have "(k div w) * w \<le> k" using e by linarith
  then have le: "(k div w) * w \<le> length F" using assms by linarith
  have "take w (drop ((k div w) * w) F) ! (k mod w) = drop ((k div w) * w) F ! (k mod w)"
    using m by simp
  also have "\<dots> = F ! ((k div w) * w + k mod w)"
    using le by (rule nth_drop)
  finally show ?thesis using e by simp
qed

lemma tensor3_eqI:
  assumes wf: "wf_tensor3 s" "wf_tensor3 t" and sh: "shape s = shape t"
    and chips: "\<And>j. j < dim_size s 0 \<Longrightarrow> chip0 s j = chip0 t j"
  shows "s = t"
proof -
  let ?n = "dim_size s 0" and ?w = "dim_size s 1 * dim_size s 2"
  have d: "dim_size t k = dim_size s k" for k using sh by (simp add: dim_size_def)
  have ls: "length (flat s) = ?n * ?w" using wf_tensor3_shape(2) [OF wf(1)] .
  have lt: "length (flat t) = ?n * ?w" using wf_tensor3_shape(2) [OF wf(2)] by (simp add: d)
  have "flat s = flat t"
  proof (rule nth_equalityI)
    show "length (flat s) = length (flat t)" using ls lt by simp
  next
    fix k assume "k < length (flat s)"
    then have k: "k < ?n * ?w" using ls by simp
    then have w: "0 < ?w" by (rule pos_width)
    have "k div ?w < ?n" using k w by (simp add: less_mult_imp_div_less)
    then have "chip0 s (k div ?w) = chip0 t (k div ?w)" by (rule chips)
    then have "take ?w (drop ((k div ?w) * ?w) (flat s)) = take ?w (drop ((k div ?w) * ?w) (flat t))"
      by (simp add: chip0_def d)
    then show "flat s ! k = flat t ! k"
      using flat_nth_chip [OF k ls] flat_nth_chip [OF k lt] by simp
  qed
  with sh show ?thesis by simp
qed


subsection \<open>The loop over the units\<close>

declare for_units.simps [simp del]

lemma dim_size_shape_cong: "shape s = shape t \<Longrightarrow> dim_size s k = dim_size t k"
  by (simp add: dim_size_def)

lemma fits_shape_cong: "shape s = shape t \<Longrightarrow> fits U s = fits U t"
  by (simp add: fits_def dim_size_def)

lemma chips_updated_refl: "wf_tensor3 Tz \<Longrightarrow> chips_updated U {} Tz Tz"
  by (simp add: chips_updated_def)

lemma chips_updated_trans:
  assumes "chips_updated U S1 Tz T1" "chips_updated U S2 T1 T2"
  shows "chips_updated U (S1 \<union> S2) Tz T2"
proof -
  from assms(1) have sh: "shape T1 = shape Tz" by (simp add: chips_updated_def)
  then have d: "dim_size T1 0 = dim_size Tz 0" by (rule dim_size_shape_cong)
  show ?thesis
    using assms unfolding chips_updated_def d by auto
qed

lemma chips_updated_subset:
  assumes "chips_updated U S Tz T" "\<And>j. j < dim_size Tz 0 \<Longrightarrow> j \<in> S \<longleftrightarrow> j \<in> S'"
  shows "chips_updated U S' Tz T"
  using assms unfolding chips_updated_def by auto

lemma chips_updated_unique:
  assumes "chips_updated U S Tz T" "chips_updated U S Tz T'"
  shows "T = T'"
proof (rule tensor3_eqI)
  show "wf_tensor3 T" "wf_tensor3 T'" "shape T = shape T'"
    using assms by (simp_all add: chips_updated_def)
next
  fix j assume "j < dim_size T 0"
  moreover have "dim_size T 0 = dim_size Tz 0"
    using assms(1) by (simp add: chips_updated_def dim_size_def)
  ultimately show "chip0 T j = chip0 T' j"
    using assms by (simp add: chips_updated_def)
qed

lemma unit_step:
  assumes wf: "wf_tensor3 Tz" and f: "fits U Tz" and i: "i < dim_size Tz 0"
  shows "chips_updated U {i} Tz (assign_chip0 Tz i (U i))"
proof -
  from f i have d: "dim0 (U i) = dim_size Tz 1" "dim1 (U i) = dim_size Tz 2"
    and l: "length (coeff (U i)) = dim_size Tz 1 * dim_size Tz 2"
    by (simp_all add: fits_def wf_matrix_def)
  have same: "chip0 (assign_chip0 Tz i (U i)) i = U i"
    using chip0_assign_same [OF wf i l] d by simp
  have other: "j \<noteq> i \<Longrightarrow> chip0 (assign_chip0 Tz i (U i)) j = chip0 Tz j" for j
    by (rule chip0_assign_other [OF wf i l])
  show ?thesis
    unfolding chips_updated_def
    using wf_assign [OF wf i l] same other by auto
qed

lemma for_units_chips:
  assumes "wf_tensor3 Tz" "fits U Tz"
    and "dim_size Tx 0 = dim_size Tz 0" "dim_size Ty 0 = dim_size Tz 0"
    and "0 \<le> start" "limit \<le> int (dim_size Tz 0)"
  shows "\<exists>Tz'. for_units (unit_body Tx Ty U) start limit Tz = Some Tz' \<and>
           chips_updated U {j. start \<le> int j \<and> int j < limit} Tz Tz'"
  using assms
proof (induction "unit_body Tx Ty U" start limit Tz rule: for_units.induct)
  case (1 i limit Tz)
  show ?case
  proof (cases "i < limit")
    case False
    then have r: "for_units (unit_body Tx Ty U) i limit Tz = Some Tz"
      by (simp add: for_units.simps)
    have e: "{j. i \<le> int j \<and> int j < limit} = {}" using False by auto
    show ?thesis
      unfolding e using r chips_updated_refl [OF "1.prems"(1), of U] by blast
  next
    case True
    let ?T1 = "assign_chip0 Tz (nat i) (U (nat i))"
    have i: "nat i < dim_size Tz 0" using True "1.prems"(5,6) by linarith
    have b: "unit_body Tx Ty U i Tz = Some ?T1"
      using i "1.prems"(3,4,5) by (simp add: unit_body_def chips_in_range_def)
    have s1: "chips_updated U {nat i} Tz ?T1"
      by (rule unit_step [OF "1.prems"(1,2) i])
    then have wf1: "wf_tensor3 ?T1" by (simp add: chips_updated_def)
    have f1: "fits U ?T1" using "1.prems"(2) fits_shape_cong [of ?T1 Tz U] by simp
    have "\<exists>Tz'. for_units (unit_body Tx Ty U) (i + 1) limit ?T1 = Some Tz' \<and>
           chips_updated U {j. i + 1 \<le> int j \<and> int j < limit} ?T1 Tz'"
      using "1.hyps" [OF True b wf1 f1] "1.prems"(3-6) by simp
    then obtain Tz' where r: "for_units (unit_body Tx Ty U) (i + 1) limit ?T1 = Some Tz'"
      and c: "chips_updated U {j. i + 1 \<le> int j \<and> int j < limit} ?T1 Tz'" by blast
    have r': "for_units (unit_body Tx Ty U) i limit Tz = Some Tz'"
      using True b r by (subst for_units.simps) simp
    have e: "{nat i} \<union> {j. i + 1 \<le> int j \<and> int j < limit} = {j. i \<le> int j \<and> int j < limit}"
      using True "1.prems"(5) by auto
    show ?thesis
      using r' chips_updated_trans [OF s1 c] unfolding e by blast
  qed
qed


subsection \<open>What the kernels write\<close>

lemma Run_for_units:
  "Run parallelize_inner Tx Ty adj_x adj_y Tz start limit =
     for_units (unit_body Tx Ty (kernel_unit adj_x adj_y Tx Ty)) start limit Tz"
  unfolding Run_def Let_def
  by (rule arg_cong [where f = "\<lambda>b. for_units b start limit Tz"])
    (intro ext, simp add: unit_body_def kernel_unit_def Contract_def)

lemma Run_real_for_units:
  "Run_real parallelize_inner Tx Ty adj_x adj_y Tz start limit =
     for_units (unit_body Tx Ty (kernel_unit_real adj_x adj_y Tx Ty)) start limit Tz"
  unfolding Run_real_def Let_def
  by (rule arg_cong [where f = "\<lambda>b. for_units b start limit Tz"])
    (intro ext, simp add: unit_body_def kernel_unit_real_def Contract_real_def)

lemma dims_chip0 [simp]: "dim0 (chip0 t j) = dim_size t 1" "dim1 (chip0 t j) = dim_size t 2"
  by (simp_all add: chip0_def)

lemma wf_chip0:
  assumes "wf_tensor3 t" "j < dim_size t 0"
  shows "wf_matrix (chip0 t j)"
proof -
  let ?w = "dim_size t 1 * dim_size t 2"
  have "j * ?w + ?w \<le> length (flat t)"
    unfolding wf_tensor3_shape(2) [OF assms(1)] using assms(2) by (rule chunk_bound)
  then show ?thesis by (simp add: wf_matrix_def chip0_def)
qed

lemma dims_contract:
  "dim0 (contract x y pr) = (if fst pr = 0 then dim1 x else dim0 x)"
  "dim1 (contract x y pr) = (if snd pr = 0 then dim1 y else dim0 y)"
  by (simp_all add: contract_def Let_def)

lemma wf_contract: "wf_matrix (contract x y pr)"
  by (simp add: wf_matrix_def contract_def Let_def table_length)

lemma fits_kernel_unit:
  assumes "launch_ok adj_x adj_y Tx Ty Tz"
  shows "fits (kernel_unit adj_x adj_y Tx Ty) Tz"
  using assms
  by (cases adj_x; cases adj_y)
    (simp_all add: fits_def launch_ok_def kernel_unit_def dims_contract wf_contract
      contract_pairs_def)

lemma fits_kernel_unit_real:
  assumes "launch_ok adj_x adj_y Tx Ty Tz"
  shows "fits (kernel_unit_real adj_x adj_y Tx Ty) Tz"
  using assms
  by (cases adj_x; cases adj_y)
    (simp_all add: fits_def launch_ok_def kernel_unit_real_def dims_contract wf_contract
      contract_pairs_real_def)

lemma kernel_unit_adjoint_product:
  assumes "launch_ok adj_x adj_y Tx Ty Tz" "j < dim_size Tx 0"
  shows "(if adj_x then conjugate (kernel_unit adj_x adj_y Tx Ty j)
          else kernel_unit adj_x adj_y Tx Ty j) =
         adjoint_product adj_x adj_y (chip0 Tx j) (chip0 Ty j)"
proof -
  have wy: "wf_matrix (chip0 Ty j)"
    using assms by (intro wf_chip0) (simp_all add: launch_ok_def)
  show ?thesis
    using assms(1) wy
    by (cases adj_x; cases adj_y)
      (simp_all add: kernel_unit_def adjoint_product_def contract_pairs_def launch_ok_def
        unit_FF unit_FT unit_TF unit_TT)
qed

lemma kernel_unit_real_transpose_product:
  assumes "launch_ok adj_x adj_y Tx Ty Tz"
  shows "kernel_unit_real adj_x adj_y Tx Ty j =
         transpose_product adj_x adj_y (chip0 Tx j) (chip0 Ty j)"
  using assms
  by (cases adj_x; cases adj_y)
    (simp_all add: kernel_unit_real_def transpose_product_def contract_pairs_real_def
      launch_ok_def unit_FF unit_real_FT unit_real_TF unit_real_TT)

lemma chip0_Conjugate: "chip0 (Conjugate Tz) j = conjugate (chip0 Tz j)"
  by (simp add: chip0_def Conjugate_def conjugate_def dim_size_def take_map drop_map)


subsection \<open>Blocks\<close>

lemma run_blocks_cong:
  "(\<And>start limit s. (start, limit) \<in> set blocks \<Longrightarrow> f start limit s = g start limit s) \<Longrightarrow>
   run_blocks f blocks s = run_blocks g blocks s"
proof (induction blocks arbitrary: s)
  case Nil
  show ?case by simp
next
  case (Cons b blocks)
  obtain start limit where b: "b = (start, limit)" by (cases b)
  have "f start limit s = g start limit s" using Cons.prems [of start limit s] b by simp
  moreover have "run_blocks f blocks s' = run_blocks g blocks s'" for s'
    by (rule Cons.IH) (simp add: Cons.prems)
  ultimately show ?case by (simp add: b split: option.split)
qed

lemma run_blocks_chips:
  assumes "wf_tensor3 Tz" "fits U Tz"
    and "dim_size Tx 0 = dim_size Tz 0" "dim_size Ty 0 = dim_size Tz 0"
    and "\<forall>(start, limit) \<in> set blocks. 0 \<le> start \<and> limit \<le> int (dim_size Tz 0)"
  shows "\<exists>Tz'. run_blocks (for_units (unit_body Tx Ty U)) blocks Tz = Some Tz' \<and>
           chips_updated U {j. \<exists>(start, limit) \<in> set blocks. start \<le> int j \<and> int j < limit} Tz Tz'"
  using assms
proof (induction blocks arbitrary: Tz)
  case Nil
  then show ?case using chips_updated_refl [of Tz U] by simp
next
  case (Cons b blocks)
  obtain start limit where b: "b = (start, limit)" by (cases b)
  have r: "0 \<le> start" "limit \<le> int (dim_size Tz 0)" using Cons.prems(5) b by auto
  obtain T1 where r1: "for_units (unit_body Tx Ty U) start limit Tz = Some T1"
    and c1: "chips_updated U {j. start \<le> int j \<and> int j < limit} Tz T1"
    using for_units_chips [OF Cons.prems(1-4) r] by blast
  from c1 have wf1: "wf_tensor3 T1" and sh1: "shape T1 = shape Tz"
    by (simp_all add: chips_updated_def)
  have d: "dim_size T1 k = dim_size Tz k" for k using sh1 by (rule dim_size_shape_cong)
  have f1: "fits U T1" using Cons.prems(2) fits_shape_cong [OF sh1] by simp
  have "\<exists>Tz'. run_blocks (for_units (unit_body Tx Ty U)) blocks T1 = Some Tz' \<and>
           chips_updated U {j. \<exists>(start, limit) \<in> set blocks. start \<le> int j \<and> int j < limit} T1 Tz'"
    by (rule Cons.IH [OF wf1 f1]) (use Cons.prems(3-5) d in auto)
  then obtain Tz' where r2: "run_blocks (for_units (unit_body Tx Ty U)) blocks T1 = Some Tz'"
    and c2: "chips_updated U
      {j. \<exists>(start, limit) \<in> set blocks. start \<le> int j \<and> int j < limit} T1 Tz'" by blast
  have e: "{j. start \<le> int j \<and> int j < limit} \<union>
      {j. \<exists>(start, limit) \<in> set blocks. start \<le> int j \<and> int j < limit} =
      {j. \<exists>(start, limit) \<in> set (b # blocks). start \<le> int j \<and> int j < limit}"
    using b by auto
  have "run_blocks (for_units (unit_body Tx Ty U)) (b # blocks) Tz = Some Tz'"
    using r1 r2 b by simp
  then show ?case
    using chips_updated_trans [OF c1 c2] unfolding e by blast
qed

lemma sharding_bounds:
  assumes "sharding N blocks" "N \<le> n"
  shows "\<forall>(start, limit) \<in> set blocks. 0 \<le> start \<and> limit \<le> n"
  using assms by (fastforce simp: sharding_def)

lemma sharding_cover:
  assumes "sharding N blocks"
  shows "(\<exists>(start, limit) \<in> set blocks. start \<le> int j \<and> int j < limit) \<longleftrightarrow> int j < N"
proof
  assume "\<exists>(start, limit) \<in> set blocks. start \<le> int j \<and> int j < limit"
  then show "int j < N" using assms by (fastforce simp: sharding_def)
next
  assume "int j < N"
  then have "covers_once blocks (int j)" using assms by (simp add: sharding_def)
  then have "filter (\<lambda>(start, limit). start \<le> int j \<and> int j < limit) blocks \<noteq> []"
    by (auto simp: covers_once_def)
  then obtain b where "b \<in> set (filter (\<lambda>(start, limit). start \<le> int j \<and> int j < limit) blocks)"
    by (cases "filter (\<lambda>(start, limit). start \<le> int j \<and> int j < limit) blocks") auto
  then show "\<exists>(start, limit) \<in> set blocks. start \<le> int j \<and> int j < limit" by auto
qed

lemma blocks_as_one_run:
  assumes "wf_tensor3 Tz" "fits U Tz"
    and "dim_size Tx 0 = dim_size Tz 0" "dim_size Ty 0 = dim_size Tz 0"
    and "sharding N blocks" "N \<le> int (dim_size Tz 0)"
  shows "\<exists>Tz'. run_blocks (for_units (unit_body Tx Ty U)) blocks Tz = Some Tz' \<and>
           for_units (unit_body Tx Ty U) 0 N Tz = Some Tz' \<and>
           chips_updated U {j. int j < N} Tz Tz'"
proof -
  obtain T1 where r1: "run_blocks (for_units (unit_body Tx Ty U)) blocks Tz = Some T1"
    and c1: "chips_updated U
      {j. \<exists>(start, limit) \<in> set blocks. start \<le> int j \<and> int j < limit} Tz T1"
    using run_blocks_chips [OF assms(1-4) sharding_bounds [OF assms(5,6)]] by blast
  obtain T2 where r2: "for_units (unit_body Tx Ty U) 0 N Tz = Some T2"
    and c2: "chips_updated U {j. 0 \<le> int j \<and> int j < N} Tz T2"
    using for_units_chips [OF assms(1-4) _ assms(6), of 0] by auto
  have c1': "chips_updated U {j. int j < N} Tz T1"
    by (rule chips_updated_subset [OF c1]) (simp add: sharding_cover [OF assms(5)])
  have c2': "chips_updated U {j. int j < N} Tz T2"
    by (rule chips_updated_subset [OF c2]) simp
  have "T1 = T2" using c1' c2' by (rule chips_updated_unique)
  then show ?thesis using r1 r2 c1' by simp
qed

subsection \<open>Launch on batches that fit an int\<close>

lemma int64_to_int_id: "0 \<le> v \<Longrightarrow> v < 2 ^ 31 \<Longrightarrow> int64_to_int v = v"
  by (simp add: int64_to_int_def signed_take_bit_int_eq_self)

lemma Launch_ran:
  assumes KR: "\<And>pi Tz s l. KR pi in_x in_y adj_x adj_y Tz s l =
      for_units (unit_body in_x in_y U) s l Tz"
    and wf: "wf_tensor3 out" and fits: "fits U out"
    and dx: "dim_size in_x 0 = dim_size out 0" and dy: "dim_size in_y 0 = dim_size out 0"
    and small: "int (dim_size in_x 0) < 2 ^ 31"
    and shard: "\<And>p N c pi. dispatch T in_x out = ShardOuter p N c pi \<Longrightarrow>
      sharding N (Shard p N c)"
  shows "\<exists>T1. Launch KR KC T Shard in_x in_y adj_x adj_y out =
           Some (if adj_x then KC T1 else T1) \<and>
         chips_updated U {j. j < dim_size out 0} out T1"
proof -
  let ?N = "int (dim_size in_x 0)"
  have n: "?N \<le> int (dim_size out 0)" using dx by simp
  have set_eq: "{j. int j < ?N} = {j. j < dim_size out 0}" using dx by auto
  show ?thesis
  proof (cases "dispatch T in_x out")
    case (RunInline pi s l)
    then have sl: "s = 0" "l = ?N"
      by (auto simp: dispatch_def Let_def split: if_splits)
    obtain T1 where r: "for_units (unit_body in_x in_y U) 0 ?N out = Some T1"
      and c: "chips_updated U {j. 0 \<le> int j \<and> int j < ?N} out T1"
      using for_units_chips [OF wf fits dx dy _ n, of 0] by auto
    have c': "chips_updated U {j. j < dim_size out 0} out T1"
      by (rule chips_updated_subset [OF c]) (use dx in simp)
    have "Launch KR KC T Shard in_x in_y adj_x adj_y out = Some (if adj_x then KC T1 else T1)"
      using RunInline r small by (simp add: Launch_def Let_def sl KR int64_to_int_id)
    with c' show ?thesis by blast
  next
    case (ShardOuter p N' c pi)
    then have N': "N' = ?N"
      by (auto simp: dispatch_def Let_def split: if_splits)
    have sh: "sharding ?N (Shard p ?N c)" using shard [OF ShardOuter] N' by simp
    obtain T1 where r: "run_blocks (for_units (unit_body in_x in_y U)) (Shard p ?N c) out = Some T1"
      and c1: "chips_updated U {j. int j < ?N} out T1"
      using blocks_as_one_run [OF wf fits dx dy sh n] by blast
    have "run_blocks (\<lambda>start limit Tz. KR pi in_x in_y adj_x adj_y Tz
            (int64_to_int start) (int64_to_int limit)) (Shard p ?N c) out =
          run_blocks (for_units (unit_body in_x in_y U)) (Shard p ?N c) out"
    proof (rule run_blocks_cong)
      fix start limit s assume "(start, limit) \<in> set (Shard p ?N c)"
      then have "0 \<le> start" "start \<le> limit" "limit \<le> ?N"
        using sh by (auto simp: sharding_def)
      then have "int64_to_int start = start" "int64_to_int limit = limit"
        using small by (simp_all add: int64_to_int_id)
      then show "KR pi in_x in_y adj_x adj_y s (int64_to_int start) (int64_to_int limit) =
          for_units (unit_body in_x in_y U) start limit s"
        by (simp add: KR)
    qed
    then have "Launch KR KC T Shard in_x in_y adj_x adj_y out =
        Some (if adj_x then KC T1 else T1)"
      using ShardOuter r by (simp add: Launch_def Let_def N')
    with c1 show ?thesis unfolding set_eq by blast
  qed
qed

lemma wf_Conjugate: "wf_tensor3 Tz \<Longrightarrow> wf_tensor3 (Conjugate Tz)"
  by (simp add: wf_tensor3_def Conjugate_def dims_def)

lemma Launch_complex_correct:
  assumes ok: "launch_ok adj_x adj_y in_x in_y out"
    and small: "int (dim_size in_x 0) < 2 ^ 31"
    and shard: "\<And>p N c pi. dispatch T in_x out = ShardOuter p N c pi \<Longrightarrow>
      sharding N (Shard p N c)"
  shows "\<exists>Tz'. Launch Run Conjugate T Shard in_x in_y adj_x adj_y out = Some Tz' \<and>
           wf_tensor3 Tz' \<and> shape Tz' = shape out \<and>
           (\<forall>j<dim_size in_x 0.
              chip0 Tz' j = adjoint_product adj_x adj_y (chip0 in_x j) (chip0 in_y j))"
proof -
  let ?U = "kernel_unit adj_x adj_y in_x in_y"
  from ok have wf: "wf_tensor3 out" and dx: "dim_size in_x 0 = dim_size out 0"
    and dy: "dim_size in_y 0 = dim_size out 0" by (simp_all add: launch_ok_def)
  have "\<exists>T1. Launch Run Conjugate T Shard in_x in_y adj_x adj_y out =
           Some (if adj_x then Conjugate T1 else T1) \<and>
         chips_updated ?U {j. j < dim_size out 0} out T1"
  proof (rule Launch_ran [where KR = Run and KC = Conjugate and U = ?U])
    show "Run pi in_x in_y adj_x adj_y Tz s l = for_units (unit_body in_x in_y ?U) s l Tz"
      for pi Tz s l by (rule Run_for_units)
    show "fits ?U out" by (rule fits_kernel_unit [OF ok])
    show "sharding N (Shard p N c)" if "dispatch T in_x out = ShardOuter p N c pi" for p N c pi
      using that by (rule shard)
  qed (fact wf dx dy small)+
  then obtain T1 where l: "Launch Run Conjugate T Shard in_x in_y adj_x adj_y out =
           Some (if adj_x then Conjugate T1 else T1)"
    and c: "chips_updated ?U {j. j < dim_size out 0} out T1" by blast
  from c have wf1: "wf_tensor3 T1" and sh1: "shape T1 = shape out"
    and ch: "\<And>j. j < dim_size out 0 \<Longrightarrow> chip0 T1 j = ?U j"
    by (simp_all add: chips_updated_def)
  let ?Z = "if adj_x then Conjugate T1 else T1"
  have "wf_tensor3 ?Z" using wf1 by (simp add: wf_Conjugate)
  moreover have "shape ?Z = shape out" using sh1 by (simp add: Conjugate_def)
  moreover have "chip0 ?Z j = adjoint_product adj_x adj_y (chip0 in_x j) (chip0 in_y j)"
    if "j < dim_size in_x 0" for j
  proof -
    have "chip0 ?Z j = (if adj_x then conjugate (?U j) else ?U j)"
      using ch [of j] that dx by (simp add: chip0_Conjugate)
    then show ?thesis using kernel_unit_adjoint_product [OF ok that] by simp
  qed
  ultimately show ?thesis using l by blast
qed

lemma Launch_real_correct:
  assumes ok: "launch_ok adj_x adj_y in_x in_y out"
    and small: "int (dim_size in_x 0) < 2 ^ 31"
    and shard: "\<And>p N c pi. dispatch T in_x out = ShardOuter p N c pi \<Longrightarrow>
      sharding N (Shard p N c)"
  shows "\<exists>Tz'. Launch Run_real Conjugate_real T Shard in_x in_y adj_x adj_y out = Some Tz' \<and>
           wf_tensor3 Tz' \<and> shape Tz' = shape out \<and>
           (\<forall>j<dim_size in_x 0.
              chip0 Tz' j = transpose_product adj_x adj_y (chip0 in_x j) (chip0 in_y j))"
proof -
  let ?U = "kernel_unit_real adj_x adj_y in_x in_y"
  from ok have wf: "wf_tensor3 out" and dx: "dim_size in_x 0 = dim_size out 0"
    and dy: "dim_size in_y 0 = dim_size out 0" by (simp_all add: launch_ok_def)
  have "\<exists>T1. Launch Run_real Conjugate_real T Shard in_x in_y adj_x adj_y out =
           Some (if adj_x then Conjugate_real T1 else T1) \<and>
         chips_updated ?U {j. j < dim_size out 0} out T1"
  proof (rule Launch_ran [where KR = Run_real and KC = Conjugate_real and U = ?U])
    show "Run_real pi in_x in_y adj_x adj_y Tz s l = for_units (unit_body in_x in_y ?U) s l Tz"
      for pi Tz s l by (rule Run_real_for_units)
    show "fits ?U out" by (rule fits_kernel_unit_real [OF ok])
    show "sharding N (Shard p N c)" if "dispatch T in_x out = ShardOuter p N c pi" for p N c pi
      using that by (rule shard)
  qed (fact wf dx dy small)+
  then obtain T1 where l: "Launch Run_real Conjugate_real T Shard in_x in_y adj_x adj_y out =
           Some (if adj_x then Conjugate_real T1 else T1)"
    and c: "chips_updated ?U {j. j < dim_size out 0} out T1" by blast
  from c have wf1: "wf_tensor3 T1" and sh1: "shape T1 = shape out"
    and ch: "\<And>j. j < dim_size out 0 \<Longrightarrow> chip0 T1 j = ?U j"
    by (simp_all add: chips_updated_def)
  have "chip0 T1 j = transpose_product adj_x adj_y (chip0 in_x j) (chip0 in_y j)"
    if "j < dim_size in_x 0" for j
    using ch [of j] that dx kernel_unit_real_transpose_product [OF ok, of j] by simp
  then show ?thesis using l wf1 sh1 by (auto simp: Conjugate_real_def)
qed


text \<open>
  Below \<open>2^31\<close> units the result of \<open>Launch\<close> does not depend on the size of the pool or
  on the blocks \<open>Shard\<close> hands out, as long as they partition the range.
\<close>

lemma Launch_complex_any_sharding:
  assumes ok: "launch_ok adj_x adj_y in_x in_y out"
    and small: "int (dim_size in_x 0) < 2 ^ 31"
    and s1: "\<And>p N c pi. dispatch T1 in_x out = ShardOuter p N c pi \<Longrightarrow>
      sharding N (Shard1 p N c)"
    and s2: "\<And>p N c pi. dispatch T2 in_x out = ShardOuter p N c pi \<Longrightarrow>
      sharding N (Shard2 p N c)"
  shows "Launch Run Conjugate T1 Shard1 in_x in_y adj_x adj_y out =
         Launch Run Conjugate T2 Shard2 in_x in_y adj_x adj_y out"
proof -
  obtain A where a: "Launch Run Conjugate T1 Shard1 in_x in_y adj_x adj_y out = Some A"
    and wa: "wf_tensor3 A" and sa: "shape A = shape out"
    and ca: "\<And>j. j < dim_size in_x 0 \<Longrightarrow>
      chip0 A j = adjoint_product adj_x adj_y (chip0 in_x j) (chip0 in_y j)"
    using Launch_complex_correct [where T = T1 and Shard = Shard1, OF ok small] s1 by blast
  obtain B where b: "Launch Run Conjugate T2 Shard2 in_x in_y adj_x adj_y out = Some B"
    and wb: "wf_tensor3 B" and sb: "shape B = shape out"
    and cb: "\<And>j. j < dim_size in_x 0 \<Longrightarrow>
      chip0 B j = adjoint_product adj_x adj_y (chip0 in_x j) (chip0 in_y j)"
    using Launch_complex_correct [where T = T2 and Shard = Shard2, OF ok small] s2 by blast
  have d: "dim_size A 0 = dim_size in_x 0"
    using sa ok by (simp add: dim_size_def launch_ok_def)
  have "A = B"
  proof (rule tensor3_eqI [OF wa wb])
    show "shape A = shape B" using sa sb by simp
    show "chip0 A j = chip0 B j" if "j < dim_size A 0" for j
      using that d ca [of j] cb [of j] by simp
  qed
  then show ?thesis using a b by simp
qed

lemma Launch_real_any_sharding:
  assumes ok: "launch_ok adj_x adj_y in_x in_y out"
    and small: "int (dim_size in_x 0) < 2 ^ 31"
    and s1: "\<And>p N c pi. dispatch T1 in_x out = ShardOuter p N c pi \<Longrightarrow>
      sharding N (Shard1 p N c)"
    and s2: "\<And>p N c pi. dispatch T2 in_x out = ShardOuter p N c pi \<Longrightarrow>
      sharding N (Shard2 p N c)"
  shows "Launch Run_real Conjugate_real T1 Shard1 in_x in_y adj_x adj_y out =
         Launch Run_real Conjugate_real T2 Shard2 in_x in_y adj_x adj_y out"
proof -
  obtain A where a: "Launch Run_real Conjugate_real T1 Shard1 in_x in_y adj_x adj_y out = Some A"
    and wa: "wf_tensor3 A" and sa: "shape A = shape out"
    and ca: "\<And>j. j < dim_size in_x 0 \<Longrightarrow>
      chip0 A j = transpose_product adj_x adj_y (chip0 in_x j) (chip0 in_y j)"
    using Launch_real_correct [where T = T1 and Shard = Shard1, OF ok small] s1 by blast
  obtain B where b: "Launch Run_real Conjugate_real T2 Shard2 in_x in_y adj_x adj_y out = Some B"
    and wb: "wf_tensor3 B" and sb: "shape B = shape out"
    and cb: "\<And>j. j < dim_size in_x 0 \<Longrightarrow>
      chip0 B j = transpose_product adj_x adj_y (chip0 in_x j) (chip0 in_y j)"
    using Launch_real_correct [where T = T2 and Shard = Shard2, OF ok small] s2 by blast
  have d: "dim_size A 0 = dim_size in_x 0"
    using sa ok by (simp add: dim_size_def launch_ok_def)
  have "A = B"
  proof (rule tensor3_eqI [OF wa wb])
    show "shape A = shape B" using sa sb by simp
    show "chip0 A j = chip0 B j" if "j < dim_size A 0" for j
      using that d ca [of j] cb [of j] by simp
  qed
  then show ?thesis using a b by simp
qed

lemma Launch_two_blocks_example:
  "Launch Run_real Conjugate_real 2 (\<lambda>p N c. [(1, 2), (0, 1)])
     \<lparr>shape = [2, 2, 3], flat = [1, 2, 3, 4, 5, 6, 7, 8, 9, 10, 11, 12 :: int]\<rparr>
     \<lparr>shape = [2, 3, 2], flat = [1, 0, 0, 1, 1, 1, 2, 0, 0, 2, 1, 1]\<rparr> False False
     \<lparr>shape = [2, 2, 2], flat = [77, 77, 77, 77, 77, 77, 77, 77]\<rparr> =
   Some \<lparr>shape = [2, 2, 2], flat = [4, 5, 10, 11, 23, 25, 32, 34]\<rparr>"
  "Launch Run_real Conjugate_real 1 (\<lambda>p N c. [(0, N)])
     \<lparr>shape = [2, 2, 3], flat = [1, 2, 3, 4, 5, 6, 7, 8, 9, 10, 11, 12 :: int]\<rparr>
     \<lparr>shape = [2, 3, 2], flat = [1, 0, 0, 1, 1, 1, 2, 0, 0, 2, 1, 1]\<rparr> False False
     \<lparr>shape = [2, 2, 2], flat = [77, 77, 77, 77, 77, 77, 77, 77]\<rparr> =
   Some \<lparr>shape = [2, 2, 2], flat = [4, 5, 10, 11, 23, 25, 32, 34]\<rparr>"
  by code_simp+


text \<open>
  C3 (amended). On a valid call with non-empty operands and output, \<open>Compute\<close> calls
  \<open>Launch\<close> once, on the rank-3 views of \<open>in0\<close>, \<open>in1\<close> and the output. With \<open>N\<close> the
  number of matrices in the batch, \<open>T\<close> the size of the worker pool, \<open>n\<close> the output's
  trailing dimension, which is the number of columns of the right operand once its
  adjoint flag is applied (\<open>rows in1\<close> when \<open>adj_y\<close> is set, \<open>cols in1\<close> otherwise), and
  the cost per unit \<open>rows in0 * cols in0 * n\<close> (the left operand as stored): when \<open>N\<close> is
  1, or the cost exceeds \<open>128 * 256 * 256\<close> and \<open>n\<close> exceeds 1, \<open>Launch\<close> runs the kernel
  itself over \<open>[0, N)\<close> with \<open>parallelize_inner\<close> true; otherwise it calls \<open>Shard\<close> with
  \<open>parallelize_inner = (T > N \<and> n > 1)\<close> and \<open>max 1 (T - 1)\<close> outer threads when that flag
  is set, \<open>T\<close> when it is not. The last conjunct says that \<open>Launch\<close> does what the
  schedule says and nothing else before the final conjugation. With \<open>cols(right)\<close> as
  stored the rule differs from the code: for left \<open>[2, 128, 256]\<close>, right
  \<open>[2, 300, 256]\<close> and \<open>adj_y\<close> alone, \<open>128 * 256 * 256\<close> does not exceed the threshold and
  the rule as worded shards the batch, while the code's cost is \<open>128 * 256 * 300\<close> and it
  runs the two units itself.
\<close>

theorem dispatch_rule:
  "(valid_call adj_x adj_y in0 in1 \<and>
    alloc (product_shape adj_x adj_y in0 in1) = Inr mem \<and>
    num_elements (product_shape adj_x adj_y in0 in1) \<noteq> 0 \<and>
    NumElements in0 \<noteq> 0 \<and> NumElements in1 \<noteq> 0 \<longrightarrow>
      trace (Compute launch alloc adj_x adj_y in0 in1) =
        [allocate_output (product_shape adj_x adj_y in0 in1),
         LaunchBatchMatMul
           \<lparr>shape = [num_elements (batch_shape in0), rows in0, cols in0], flat = flat in0\<rparr>
           \<lparr>shape = [num_elements (batch_shape in0), rows in1, cols in1], flat = flat in1\<rparr>
           adj_x adj_y
           \<lparr>shape = [num_elements (batch_shape in0), if adj_x then cols in0 else rows in0,
                      if adj_y then rows in1 else cols in1],
            flat = map mem [0..<num_elements (product_shape adj_x adj_y in0 in1)]\<rparr>]) \<and>
   dispatch T
     \<lparr>shape = [num_elements (batch_shape in0), rows in0, cols in0], flat = fx\<rparr>
     \<lparr>shape = [num_elements (batch_shape in0), if adj_x then cols in0 else rows in0,
                if adj_y then rows in1 else cols in1], flat = fz\<rparr> =
     (let N = int (num_elements (batch_shape in0));
          n = int (if adj_y then rows in1 else cols in1);
          cost = int (rows in0) * int (cols in0) * n
      in if N = 1 \<or> (cost > 128 * 256 * 256 \<and> n > 1)
         then RunInline True 0 N
         else ShardOuter (if T > N \<and> n > 1 then max 1 (T - 1) else T) N cost (T > N \<and> n > 1)) \<and>
   Launch Kernel_Run Kernel_Conjugate T Shard in_x in_y adj_x adj_y out =
      map_option (\<lambda>Tz. if adj_x then Kernel_Conjugate Tz else Tz)
        (case dispatch T in_x out of
           RunInline parallelize_inner start limit \<Rightarrow>
             Kernel_Run parallelize_inner in_x in_y adj_x adj_y out
               (int64_to_int start) (int64_to_int limit)
         | ShardOuter num_outer_threads num_units cost_per_unit parallelize_inner \<Rightarrow>
             run_blocks
               (\<lambda>start limit Tz. Kernel_Run parallelize_inner in_x in_y adj_x adj_y Tz
                  (int64_to_int start) (int64_to_int limit))
               (Shard num_outer_threads num_units cost_per_unit) out)"
proof (intro conjI impI)
  assume a: "valid_call adj_x adj_y in0 in1 \<and>
    alloc (product_shape adj_x adj_y in0 in1) = Inr mem \<and>
    num_elements (product_shape adj_x adj_y in0 in1) \<noteq> 0 \<and>
    NumElements in0 \<noteq> 0 \<and> NumElements in1 \<noteq> 0"
  then have v: "valid_call adj_x adj_y in0 in1" by simp
  show "trace (Compute launch alloc adj_x adj_y in0 in1) =
        [allocate_output (product_shape adj_x adj_y in0 in1),
         LaunchBatchMatMul
           \<lparr>shape = [num_elements (batch_shape in0), rows in0, cols in0], flat = flat in0\<rparr>
           \<lparr>shape = [num_elements (batch_shape in0), rows in1, cols in1], flat = flat in1\<rparr>
           adj_x adj_y
           \<lparr>shape = [num_elements (batch_shape in0), if adj_x then cols in0 else rows in0,
                      if adj_y then rows in1 else cols in1],
            flat = map mem [0..<num_elements (product_shape adj_x adj_y in0 in1)]\<rparr>]"
    unfolding Compute_valid_call [OF v]
    using a by (simp add: Let_def split: option.split prod.split)
next
  show "dispatch T
     \<lparr>shape = [num_elements (batch_shape in0), rows in0, cols in0], flat = fx\<rparr>
     \<lparr>shape = [num_elements (batch_shape in0), if adj_x then cols in0 else rows in0,
                if adj_y then rows in1 else cols in1], flat = fz\<rparr> =
     (let N = int (num_elements (batch_shape in0));
          n = int (if adj_y then rows in1 else cols in1);
          cost = int (rows in0) * int (cols in0) * n
      in if N = 1 \<or> (cost > 128 * 256 * 256 \<and> n > 1)
         then RunInline True 0 N
         else ShardOuter (if T > N \<and> n > 1 then max 1 (T - 1) else T) N cost (T > N \<and> n > 1))"
    by (simp add: dispatch_def Let_def dim_size_def)
next
  show "Launch Kernel_Run Kernel_Conjugate T Shard in_x in_y adj_x adj_y out =
      map_option (\<lambda>Tz. if adj_x then Kernel_Conjugate Tz else Tz)
        (case dispatch T in_x out of
           RunInline parallelize_inner start limit \<Rightarrow>
             Kernel_Run parallelize_inner in_x in_y adj_x adj_y out
               (int64_to_int start) (int64_to_int limit)
         | ShardOuter num_outer_threads num_units cost_per_unit parallelize_inner \<Rightarrow>
             run_blocks
               (\<lambda>start limit Tz. Kernel_Run parallelize_inner in_x in_y adj_x adj_y Tz
                  (int64_to_int start) (int64_to_int limit))
               (Shard num_outer_threads num_units cost_per_unit) out)"
    by (auto simp: Launch_def Let_def split: option.split schedule.split)
qed

theorem dispatch_rule_witness:
  "trace (Compute_cpu_real 8 (\<lambda>p N c. [(0, N)]) (\<lambda>sh. Inr (\<lambda>i. 0)) False True
      \<lparr>shape = [4, 2, 3], flat = replicate 24 (1 :: int)\<rparr>
      \<lparr>shape = [4, 5, 3], flat = replicate 60 1\<rparr>) =
     [allocate_output [4, 2, 5],
      LaunchBatchMatMul \<lparr>shape = [4, 2, 3], flat = replicate 24 1\<rparr>
        \<lparr>shape = [4, 5, 3], flat = replicate 60 1\<rparr> False True
        \<lparr>shape = [4, 2, 5], flat = replicate 40 0\<rparr>] \<and>
   dispatch 8 \<lparr>shape = [4, 2, 3], flat = replicate 24 (1 :: int)\<rparr>
     \<lparr>shape = [4, 2, 5], flat = replicate 40 0\<rparr> = ShardOuter 7 4 30 True \<and>
   dispatch 8 \<lparr>shape = [2, 128, 256], flat = replicate 65536 (1 :: int)\<rparr>
     \<lparr>shape = [2, 128, 300], flat = replicate 76800 0\<rparr> = RunInline True 0 2 \<and>
   dispatch 8 \<lparr>shape = [1, 2, 3], flat = replicate 6 (1 :: int)\<rparr>
     \<lparr>shape = [1, 2, 2], flat = replicate 4 0\<rparr> = RunInline True 0 1 \<and>
   dispatch 8 \<lparr>shape = [16, 2, 3], flat = replicate 96 (1 :: int)\<rparr>
     \<lparr>shape = [16, 2, 2], flat = replicate 64 0\<rparr> = ShardOuter 8 16 12 False \<and>
   dispatch 8 \<lparr>shape = [4, 2, 3], flat = replicate 24 (1 :: int)\<rparr>
     \<lparr>shape = [4, 2, 1], flat = replicate 8 0\<rparr> = ShardOuter 8 4 6 False"
  using
    dispatch_rule [where adj_x = False and adj_y = True and T = 8
      and ?in0.0 = "\<lparr>shape = [4, 2, 3], flat = replicate 24 (1 :: int)\<rparr>"
      and ?in1.0 = "\<lparr>shape = [4, 5, 3], flat = replicate 60 1\<rparr>"
      and alloc = "\<lambda>sh. Inr (\<lambda>i. 0)" and mem = "\<lambda>i. 0"
      and launch = "\<lambda>in_x in_y adj_x adj_y out. map_option (Pair OK)
         (Launch Run_real Conjugate_real 8 (\<lambda>p N c. [(0, N)]) in_x in_y adj_x adj_y out)"
      and fx = "replicate 24 1" and fz = "replicate 40 0", THEN conjunct1]
    dispatch_rule [where adj_x = False and adj_y = True and T = 8
      and ?in0.0 = "\<lparr>shape = [4, 2, 3], flat = replicate 24 (1 :: int)\<rparr>"
      and ?in1.0 = "\<lparr>shape = [4, 5, 3], flat = replicate 60 1\<rparr>"
      and alloc = "\<lambda>sh. Inr (\<lambda>i. 0)" and mem = "\<lambda>i. 0"
      and launch = "\<lambda>in_x in_y adj_x adj_y out. map_option (Pair OK)
         (Launch Run_real Conjugate_real 8 (\<lambda>p N c. [(0, N)]) in_x in_y adj_x adj_y out)"
      and fx = "replicate 24 1" and fz = "replicate 40 0", THEN conjunct2, THEN conjunct1]
    dispatch_rule [where adj_x = False and adj_y = True and T = 8
      and ?in0.0 = "\<lparr>shape = [2, 128, 256], flat = replicate 65536 (1 :: int)\<rparr>"
      and ?in1.0 = "\<lparr>shape = [2, 300, 256], flat = replicate 153600 1\<rparr>"
      and fx = "replicate 65536 1" and fz = "replicate 76800 0", THEN conjunct2, THEN conjunct1]
    dispatch_rule [where adj_x = False and adj_y = False and T = 8
      and ?in0.0 = "\<lparr>shape = [2, 3], flat = replicate 6 (1 :: int)\<rparr>"
      and ?in1.0 = "\<lparr>shape = [3, 2], flat = replicate 6 1\<rparr>"
      and fx = "replicate 6 1" and fz = "replicate 4 0", THEN conjunct2, THEN conjunct1]
    dispatch_rule [where adj_x = False and adj_y = False and T = 8
      and ?in0.0 = "\<lparr>shape = [16, 2, 3], flat = replicate 96 (1 :: int)\<rparr>"
      and ?in1.0 = "\<lparr>shape = [16, 3, 2], flat = replicate 96 1\<rparr>"
      and fx = "replicate 96 1" and fz = "replicate 64 0", THEN conjunct2, THEN conjunct1]
    dispatch_rule [where adj_x = False and adj_y = True and T = 8
      and ?in0.0 = "\<lparr>shape = [4, 2, 3], flat = replicate 24 (1 :: int)\<rparr>"
      and ?in1.0 = "\<lparr>shape = [4, 1, 3], flat = replicate 12 1\<rparr>"
      and fx = "replicate 24 1" and fz = "replicate 8 0", THEN conjunct2, THEN conjunct1]
  by (simp add: Compute_cpu_real_def valid_call_def product_shape_def batch_shape_def rows_def
      cols_def dims_def dim_size_def NumElements_def num_elements_def Let_def map_replicate_const)

theorem claimed_cost_counterexample:
  "valid_call False True
     \<lparr>shape = [2, 128, 256], flat = replicate 65536 (1 :: int)\<rparr>
     \<lparr>shape = [2, 300, 256], flat = replicate 153600 1\<rparr> \<and>
   product_shape False True
     \<lparr>shape = [2, 128, 256], flat = replicate 65536 (1 :: int)\<rparr>
     \<lparr>shape = [2, 300, 256], flat = replicate 153600 1\<rparr> = [2, 128, 300] \<and>
   claimed_dispatch 4
     \<lparr>shape = [2, 128, 256], flat = replicate 65536 (1 :: int)\<rparr>
     \<lparr>shape = [2, 300, 256], flat = replicate 153600 1\<rparr>
     \<lparr>shape = [2, 128, 300], flat = replicate 76800 0\<rparr> = ShardOuter 3 2 8388608 True \<and>
   dispatch 4
     \<lparr>shape = [2, 128, 256], flat = replicate 65536 (1 :: int)\<rparr>
     \<lparr>shape = [2, 128, 300], flat = replicate 76800 0\<rparr> = RunInline True 0 2"
  by (simp add: valid_call_def product_shape_def batch_shape_def rows_def cols_def dims_def
      dim_size_def claimed_dispatch_def dispatch_def Let_def)


text \<open>
  C5 (amended). For a complex kind: the kernel assigns to every chip of its range the
  contraction of the left chip with the right chip, the right chip conjugated
  coefficient by coefficient exactly when \<open>adj_x \<noteq> adj_y\<close>, and conjugates nothing else;
  \<open>Launch\<close> then applies one conjugation of the whole result exactly when \<open>adj_x\<close> is
  set, in both cases (so also when \<open>adj_x\<close> is set and \<open>adj_y\<close> is not); and the chip so
  obtained is the product of the adjoints taken directly. As stated, the claim leaves
  the result as it is whenever \<open>adj_x \<noteq> adj_y\<close>; the counterexample is the 1 by 1 batch
  \<open>[\<i>]\<close>, \<open>[1]\<close> with \<open>adj_x\<close> alone, where the kernel writes \<open>\<i>\<close> and \<open>Launch\<close> returns
  \<open>- \<i>\<close>, the conjugate of \<open>\<i>\<close> times 1.
\<close>

theorem complex_conjugation_scheme:
  assumes "launch_ok adj_x adj_y Tx Ty Tz" "0 \<le> start" "limit \<le> int (dim_size Tx 0)"
  shows "(\<exists>Tz'. Run parallelize_inner Tx Ty adj_x adj_y Tz start limit = Some Tz' \<and>
      (\<forall>j. start \<le> int j \<and> int j < limit \<longrightarrow>
         chip0 Tz' j =
           contract (chip0 Tx j)
             (if adj_x \<noteq> adj_y then conjugate (chip0 Ty j) else chip0 Ty j)
             (contract_pairs adj_x adj_y) \<and>
         chip0 (if adj_x then Conjugate Tz' else Tz') j =
           adjoint_product adj_x adj_y (chip0 Tx j) (chip0 Ty j))) \<and>
    Launch Kernel_Run Conjugate T Shard in_x in_y adj_x adj_y out =
      map_option (\<lambda>Tz. if adj_x then Conjugate Tz else Tz)
        (Launch Kernel_Run (\<lambda>Tz. Tz) T Shard in_x in_y adj_x adj_y out)"
proof (rule conjI)
  let ?U = "kernel_unit adj_x adj_y Tx Ty"
  from assms(1) have wf: "wf_tensor3 Tz" and dx: "dim_size Tx 0 = dim_size Tz 0"
    and dy: "dim_size Ty 0 = dim_size Tz 0" by (simp_all add: launch_ok_def)
  have lim: "limit \<le> int (dim_size Tz 0)" using assms(3) dx by simp
  obtain Tz' where r: "for_units (unit_body Tx Ty ?U) start limit Tz = Some Tz'"
    and c: "chips_updated ?U {j. start \<le> int j \<and> int j < limit} Tz Tz'"
    using for_units_chips [OF wf fits_kernel_unit [OF assms(1)] dx dy assms(2) lim] by blast
  have "chip0 Tz' j = ?U j \<and>
      chip0 (if adj_x then Conjugate Tz' else Tz') j =
        adjoint_product adj_x adj_y (chip0 Tx j) (chip0 Ty j)"
    if j: "start \<le> int j \<and> int j < limit" for j
  proof -
    have jx: "j < dim_size Tx 0" using j assms(3) by linarith
    then have "chip0 Tz' j = ?U j"
      using c j dx by (simp add: chips_updated_def)
    moreover from this
    have "chip0 (if adj_x then Conjugate Tz' else Tz') j =
        (if adj_x then conjugate (?U j) else ?U j)"
      by (simp add: chip0_Conjugate)
    ultimately show ?thesis
      using kernel_unit_adjoint_product [OF assms(1) jx] by simp
  qed
  then show "\<exists>Tz'. Run parallelize_inner Tx Ty adj_x adj_y Tz start limit = Some Tz' \<and>
      (\<forall>j. start \<le> int j \<and> int j < limit \<longrightarrow>
         chip0 Tz' j =
           contract (chip0 Tx j)
             (if adj_x \<noteq> adj_y then conjugate (chip0 Ty j) else chip0 Ty j)
             (contract_pairs adj_x adj_y) \<and>
         chip0 (if adj_x then Conjugate Tz' else Tz') j =
           adjoint_product adj_x adj_y (chip0 Tx j) (chip0 Ty j))"
    using r unfolding Run_for_units kernel_unit_def by blast
next
  show "Launch Kernel_Run Conjugate T Shard in_x in_y adj_x adj_y out =
      map_option (\<lambda>Tz. if adj_x then Conjugate Tz else Tz)
        (Launch Kernel_Run (\<lambda>Tz. Tz) T Shard in_x in_y adj_x adj_y out)"
    by (simp add: Launch_def Let_def split: option.split)
qed

lemma Run_unit_example:
  "Run True \<lparr>shape = [1, 1, 1], flat = [\<i>]\<rparr> \<lparr>shape = [1, 1, 1], flat = [1]\<rparr> True False
     \<lparr>shape = [1, 1, 1], flat = [0]\<rparr> 0 1 = Some \<lparr>shape = [1, 1, 1], flat = [\<i>]\<rparr>"
  by code_simp

lemma Launch_unit_example:
  "Launch Run Conjugate 1 (\<lambda>p N c. [(0, N)]) \<lparr>shape = [1, 1, 1], flat = [\<i>]\<rparr>
     \<lparr>shape = [1, 1, 1], flat = [1]\<rparr> True False \<lparr>shape = [1, 1, 1], flat = [0]\<rparr> =
   Some \<lparr>shape = [1, 1, 1], flat = [- \<i>]\<rparr>"
  by code_simp

theorem result_left_as_is_counterexample:
  "True \<noteq> False \<and>
   Launch Run Conjugate 1 (\<lambda>p N c. [(0, N)]) \<lparr>shape = [1, 1, 1], flat = [\<i>]\<rparr>
     \<lparr>shape = [1, 1, 1], flat = [1]\<rparr> True False \<lparr>shape = [1, 1, 1], flat = [0]\<rparr> \<noteq>
   Run True \<lparr>shape = [1, 1, 1], flat = [\<i>]\<rparr> \<lparr>shape = [1, 1, 1], flat = [1]\<rparr> True False
     \<lparr>shape = [1, 1, 1], flat = [0]\<rparr> 0 1"
  unfolding Run_unit_example Launch_unit_example by (simp add: complex_eq_iff)


theorem complex_conjugation_scheme_witness:
  "launch_ok True False \<lparr>shape = [2, 1, 1], flat = [\<i>, 1]\<rparr> \<lparr>shape = [2, 1, 1], flat = [1, \<i>]\<rparr>
     \<lparr>shape = [2, 1, 1], flat = [0, 0]\<rparr> \<and>
   (\<exists>Tz'. Run True \<lparr>shape = [2, 1, 1], flat = [\<i>, 1]\<rparr> \<lparr>shape = [2, 1, 1], flat = [1, \<i>]\<rparr>
        True False \<lparr>shape = [2, 1, 1], flat = [0, 0]\<rparr> 0 2 = Some Tz' \<and>
      chip0 (Conjugate Tz') 1 =
        adjoint_product True False (chip0 \<lparr>shape = [2, 1, 1], flat = [\<i>, 1]\<rparr> 1)
          (chip0 \<lparr>shape = [2, 1, 1], flat = [1, \<i>]\<rparr> 1))"
proof -
  have ok: "launch_ok True False \<lparr>shape = [2, 1, 1], flat = [\<i>, 1]\<rparr>
     \<lparr>shape = [2, 1, 1], flat = [1, \<i>]\<rparr> \<lparr>shape = [2, 1, 1], flat = [0, 0]\<rparr>"
    by (simp add: launch_ok_def wf_tensor3_def dims_def dim_size_def num_elements_def)
  have "(0::int) \<le> 0" "(2::int) \<le> int (dim_size \<lparr>shape = [2, 1, 1], flat = [\<i>, 1]\<rparr> 0)"
    by (simp_all add: dim_size_def)
  from complex_conjugation_scheme [OF ok this, of True]
  obtain Tz' where "Run True \<lparr>shape = [2, 1, 1], flat = [\<i>, 1]\<rparr>
        \<lparr>shape = [2, 1, 1], flat = [1, \<i>]\<rparr> True False \<lparr>shape = [2, 1, 1], flat = [0, 0]\<rparr> 0 2 =
        Some Tz'"
    and "\<forall>j. 0 \<le> int j \<and> int j < 2 \<longrightarrow>
      chip0 (if True then Conjugate Tz' else Tz') j =
        adjoint_product True False (chip0 \<lparr>shape = [2, 1, 1], flat = [\<i>, 1]\<rparr> j)
          (chip0 \<lparr>shape = [2, 1, 1], flat = [1, \<i>]\<rparr> j)"
    by blast
  then show ?thesis using ok by force
qed

subsection \<open>From \<open>Compute\<close> to \<open>Launch\<close>\<close>

lemma num_elements_as_batch:
  assumes "2 \<le> dims t"
  shows "num_elements (shape t) = num_elements (batch_shape t) * (rows t * cols t)"
  using num_elements_split [of "shape t"] assms
  by (simp add: batch_shape_def rows_def cols_def dims_def dim_size_def mult.assoc)

lemma reshaped_launch_ok:
  assumes v: "valid_call adj_x adj_y in0 in1"
    and l0: "length (flat in0) = NumElements in0" and l1: "length (flat in1) = NumElements in1"
    and lz: "length fz = num_elements (product_shape adj_x adj_y in0 in1)"
  shows "launch_ok adj_x adj_y
    \<lparr>shape = [num_elements (batch_shape in0), rows in0, cols in0], flat = flat in0\<rparr>
    \<lparr>shape = [num_elements (batch_shape in0), rows in1, cols in1], flat = flat in1\<rparr>
    \<lparr>shape = [num_elements (batch_shape in0), if adj_x then cols in0 else rows in0,
               if adj_y then rows in1 else cols in1], flat = fz\<rparr>"
proof -
  from v have eq: "dims in0 = dims in1" and ge: "2 \<le> dims in0"
    and bs: "batch_shape in1 = batch_shape in0"
    and inner: "(if adj_x then rows in0 else cols in0) = (if adj_y then cols in1 else rows in1)"
    by (simp_all add: valid_call_def)
  have ge1: "2 \<le> dims in1" using eq ge by simp
  have a: "length (flat in0) = num_elements (batch_shape in0) * (rows in0 * cols in0)"
    using l0 num_elements_as_batch [OF ge] by (simp add: NumElements_def)
  have b: "length (flat in1) = num_elements (batch_shape in0) * (rows in1 * cols in1)"
    using l1 num_elements_as_batch [OF ge1] bs by (simp add: NumElements_def)
  have c: "length fz = num_elements (batch_shape in0) *
      ((if adj_x then cols in0 else rows in0) * (if adj_y then rows in1 else cols in1))"
    using lz by (simp add: product_shape_def num_elements_def)
  show ?thesis
    using a b c inner
    by (cases adj_x; cases adj_y)
      (simp_all add: launch_ok_def wf_tensor3_def dims_def dim_size_def num_elements_def)
qed

lemma adjoint_Transpose_conjugate:
  assumes "wf_matrix m"
  shows "adjoint m = Transpose (conjugate m)"
  using assms
  apply (simp add: adjoint_def Transpose_def)
  apply (rule table_cong)
  apply (simp add: coeff_at_conjugate)
  done

lemma chip0_single:
  assumes "length f = r * c"
  shows "chip0 \<lparr>shape = [1, r, c], flat = f\<rparr> 0 = \<lparr>dim0 = r, dim1 = c, coeff = f\<rparr>"
  using assms by (simp add: chip0_def dim_size_def)

text \<open>The scenario of the specification: left [8, 16], right [32, 16], \<open>adj_y\<close> alone.\<close>

lemma scenario_8_16_by_32_16:
  assumes lx: "length fx = 128" and ly: "length fy = 512"
  shows "\<exists>fz tr. Compute_cpu_complex T Shard (\<lambda>sh. Inr mem) False True
      \<lparr>shape = [8, 16], flat = fx\<rparr> \<lparr>shape = [32, 16], flat = fy\<rparr> =
      \<lparr>status = OK, output0 = Some \<lparr>shape = [8, 32], flat = fz\<rparr>, trace = tr,
       returned = True\<rparr> \<and>
    \<lparr>dim0 = 8, dim1 = 32, coeff = fz\<rparr> =
      matmul \<lparr>dim0 = 8, dim1 = 16, coeff = fx\<rparr>
        (Transpose (conjugate \<lparr>dim0 = 32, dim1 = 16, coeff = fy\<rparr>))"
proof -
  let ?in0 = "\<lparr>shape = [8, 16], flat = fx\<rparr>" and ?in1 = "\<lparr>shape = [32, 16], flat = fy\<rparr>"
  let ?x = "\<lparr>shape = [1, 8, 16], flat = fx\<rparr>" and ?y = "\<lparr>shape = [1, 32, 16], flat = fy\<rparr>"
  let ?z = "\<lparr>shape = [1, 8, 32], flat = map mem [0..<256]\<rparr>"
  have v: "valid_call False True ?in0 ?in1"
    by (simp add: valid_call_def batch_shape_def rows_def cols_def dims_def dim_size_def)
  have sh: "product_shape False True ?in0 ?in1 = [8, 32]"
    "num_elements (batch_shape ?in0) = 1" "rows ?in0 = 8" "cols ?in0 = 16"
    "rows ?in1 = 32" "cols ?in1 = 16" "NumElements ?in0 = 128" "NumElements ?in1 = 512"
    "num_elements [8, 32] = 256"
    by (simp_all add: product_shape_def batch_shape_def rows_def cols_def dims_def dim_size_def
        num_elements_def NumElements_def)
  have ok: "launch_ok False True ?x ?y ?z"
    using reshaped_launch_ok [OF v, of "map mem [0..<256]"] lx ly by (simp add: sh)
  have "\<exists>Tz'. Launch Run Conjugate T Shard ?x ?y False True ?z = Some Tz' \<and>
           wf_tensor3 Tz' \<and> shape Tz' = shape ?z \<and>
           (\<forall>j<dim_size ?x 0.
              chip0 Tz' j = adjoint_product False True (chip0 ?x j) (chip0 ?y j))"
  proof (rule Launch_complex_correct [OF ok])
    show "int (dim_size ?x 0) < 2 ^ 31" by (simp add: dim_size_def)
    show "sharding N (Shard p N c)" if "dispatch T ?x ?z = ShardOuter p N c pi" for p N c pi
      using that by (simp add: dispatch_def Let_def dim_size_def)
  qed
  then obtain Tz' where l: "Launch Run Conjugate T Shard ?x ?y False True ?z = Some Tz'"
    and wf: "wf_tensor3 Tz'" and s: "shape Tz' = [1, 8, 32]"
    and ch: "chip0 Tz' 0 = adjoint_product False True (chip0 ?x 0) (chip0 ?y 0)"
    by (auto simp: dim_size_def)
  have len: "length (flat Tz') = 256"
    using wf s by (simp add: wf_tensor3_def num_elements_def)
  have "Tz' = \<lparr>shape = [1, 8, 32], flat = flat Tz'\<rparr>" using s by simp
  then have "chip0 Tz' 0 = \<lparr>dim0 = 8, dim1 = 32, coeff = flat Tz'\<rparr>"
    using chip0_single [of "flat Tz'" 8 32] len by simp
  moreover have "chip0 ?x 0 = \<lparr>dim0 = 8, dim1 = 16, coeff = fx\<rparr>"
    "chip0 ?y 0 = \<lparr>dim0 = 32, dim1 = 16, coeff = fy\<rparr>"
    using lx ly by (simp_all add: chip0_def dim_size_def)
  moreover have "adjoint \<lparr>dim0 = 32, dim1 = 16, coeff = fy\<rparr> =
      Transpose (conjugate \<lparr>dim0 = 32, dim1 = 16, coeff = fy\<rparr>)"
    by (rule adjoint_Transpose_conjugate) (simp add: wf_matrix_def ly)
  ultimately have prod: "\<lparr>dim0 = 8, dim1 = 32, coeff = flat Tz'\<rparr> =
      matmul \<lparr>dim0 = 8, dim1 = 16, coeff = fx\<rparr>
        (Transpose (conjugate \<lparr>dim0 = 32, dim1 = 16, coeff = fy\<rparr>))"
    using ch by (simp add: adjoint_product_def)
  have "output0 (Compute_cpu_complex T Shard (\<lambda>sh. Inr mem) False True ?in0 ?in1) =
      Some \<lparr>shape = [8, 32], flat = flat Tz'\<rparr> \<and>
    status (Compute_cpu_complex T Shard (\<lambda>sh. Inr mem) False True ?in0 ?in1) = OK \<and>
    returned (Compute_cpu_complex T Shard (\<lambda>sh. Inr mem) False True ?in0 ?in1)"
    unfolding Compute_cpu_complex_def Compute_valid_call [OF v]
    using l by (simp add: sh Let_def)
  then have "Compute_cpu_complex T Shard (\<lambda>sh. Inr mem) False True ?in0 ?in1 =
      \<lparr>status = OK, output0 = Some \<lparr>shape = [8, 32], flat = flat Tz'\<rparr>,
       trace = trace (Compute_cpu_complex T Shard (\<lambda>sh. Inr mem) False True ?in0 ?in1),
       returned = True\<rparr>"
    by (cases "Compute_cpu_complex T Shard (\<lambda>sh. Inr mem) False True ?in0 ?in1") simp
  with prod show ?thesis by blast
qed

subsection \<open>A batch of 2^31 units\<close>

lemma int64_to_int_2_31: "int64_to_int 2147483648 = - 2147483648"
  by (simp add: int64_to_int_def)

lemma int64_to_int_less: "int64_to_int v \<le> 2147483647"
proof -
  have "signed_take_bit 31 v < (2 :: int) ^ 31" by (rule signed_take_bit_int_less_exp)
  then show ?thesis by (simp add: int64_to_int_def)
qed

lemma Launch_2_31_single_block:
  "Launch Run_real Conjugate_real 1 (\<lambda>p N c. [(0, N)])
     \<lparr>shape = [2147483648, 1, 1], flat = fx\<rparr> \<lparr>shape = [2147483648, 1, 1], flat = fy\<rparr>
     False False \<lparr>shape = [2147483648, 1, 1], flat = fz\<rparr> =
   Some \<lparr>shape = [2147483648, 1, 1], flat = fz\<rparr>"
  by (simp add: Launch_def dispatch_def Let_def dim_size_def Run_real_def
      int64_to_int_2_31 int64_to_int_def for_units.simps)

lemma for_units_out_of_reach:
  assumes wf: "wf_tensor3 Tz" and fits: "fits U Tz"
    and dx: "dim_size Tx 0 = dim_size Tz 0" and dy: "dim_size Ty 0 = dim_size Tz 0"
    and lim: "limit \<le> int k" and k: "k < dim_size Tz 0"
    and r: "for_units (unit_body Tx Ty U) start limit Tz = Some Tz'"
  shows "wf_tensor3 Tz' \<and> shape Tz' = shape Tz \<and> chip0 Tz' k = chip0 Tz k"
proof (cases "start < limit")
  case False
  then have "Tz' = Tz" using r by (simp add: for_units.simps)
  then show ?thesis using wf by simp
next
  case True
  show ?thesis
  proof (cases "0 \<le> start")
    case False
    then have "unit_body Tx Ty U start Tz = None"
      by (simp add: unit_body_def chips_in_range_def)
    then have "for_units (unit_body Tx Ty U) start limit Tz = None"
      using True by (subst for_units.simps) simp
    with r show ?thesis by simp
  next
    case nonneg: True
    have "limit \<le> int (dim_size Tz 0)" using lim k by linarith
    from for_units_chips [OF wf fits dx dy nonneg this] r
    have c: "chips_updated U {j. start \<le> int j \<and> int j < limit} Tz Tz'" by auto
    then have "chip0 Tz' k = chip0 Tz k" using k lim by (simp add: chips_updated_def)
    with c show ?thesis by (simp add: chips_updated_def)
  qed
qed

lemma run_blocks_out_of_reach:
  assumes "wf_tensor3 Tz" "fits U Tz"
    and "dim_size Tx 0 = dim_size Tz 0" "dim_size Ty 0 = dim_size Tz 0"
    and "k < dim_size Tz 0"
    and "\<And>start limit. f start limit \<le> int k"
    and "run_blocks (\<lambda>start limit Tz. for_units (unit_body Tx Ty U) (g start limit) (f start limit) Tz)
           blocks Tz = Some Tz'"
  shows "chip0 Tz' k = chip0 Tz k"
  using assms
proof (induction blocks arbitrary: Tz)
  case Nil
  then show ?case by simp
next
  case (Cons b blocks)
  obtain start limit where b: "b = (start, limit)" by (cases b)
  from Cons.prems(7) obtain T1
    where r1: "for_units (unit_body Tx Ty U) (g start limit) (f start limit) Tz = Some T1"
      and r2: "run_blocks (\<lambda>start limit Tz. for_units (unit_body Tx Ty U) (g start limit)
                 (f start limit) Tz) blocks T1 = Some Tz'"
    by (auto simp: b split: option.splits)
  have s1: "wf_tensor3 T1 \<and> shape T1 = shape Tz \<and> chip0 T1 k = chip0 Tz k"
    by (rule for_units_out_of_reach [OF Cons.prems(1-4) Cons.prems(6) Cons.prems(5) r1])
  then have d: "dim_size T1 i = dim_size Tz i" for i by (simp add: dim_size_def)
  have f1: "fits U T1" using Cons.prems(2) fits_shape_cong [of T1 Tz U] s1 by simp
  have "chip0 Tz' k = chip0 T1 k"
    by (rule Cons.IH [OF _ f1 _ _ _ Cons.prems(6) r2]) (use s1 d Cons.prems(3-5) in simp_all)
  with s1 show ?case by simp
qed

lemma Launch_never_writes_unit_2_31:
  assumes len: "length fx = 2147483648" "length fy = 2147483648" "length fz = 2147483648"
    and r: "Launch Run_real Conjugate_real T Shard
      \<lparr>shape = [2147483648, 1, 1], flat = fx\<rparr> \<lparr>shape = [2147483648, 1, 1], flat = fy\<rparr>
      False False \<lparr>shape = [2147483648, 1, 1], flat = fz\<rparr> = Some Tz'"
  shows "chip0 Tz' 2147483647 = chip0 \<lparr>shape = [2147483648, 1, 1], flat = fz\<rparr> 2147483647"
proof -
  let ?X = "\<lparr>shape = [2147483648, 1, 1], flat = fx\<rparr>"
  let ?Y = "\<lparr>shape = [2147483648, 1, 1], flat = fy\<rparr>"
  let ?Z = "\<lparr>shape = [2147483648, 1, 1], flat = fz\<rparr>"
  let ?U = "kernel_unit_real False False ?X ?Y"
  have ok: "launch_ok False False ?X ?Y ?Z"
    using len by (simp add: launch_ok_def wf_tensor3_def dims_def dim_size_def num_elements_def)
  then have wf: "wf_tensor3 ?Z" by (simp add: launch_ok_def)
  have d: "dim_size ?X 0 = dim_size ?Z 0" "dim_size ?Y 0 = dim_size ?Z 0"
    "2147483647 < dim_size ?Z 0"
    by (simp_all add: dim_size_def)
  have disp: "dispatch T ?X ?Z = ShardOuter T 2147483648 1 False"
    by (simp add: dispatch_def Let_def dim_size_def)
  have "run_blocks (\<lambda>start limit Tz. for_units (unit_body ?X ?Y ?U) (int64_to_int start)
          (int64_to_int limit) Tz) (Shard T 2147483648 1) ?Z = Some Tz'"
    using r disp by (simp add: Launch_def Let_def Run_real_for_units Conjugate_real_def
        split: option.splits)
  then show ?thesis
    by (rule run_blocks_out_of_reach [OF wf fits_kernel_unit_real [OF ok] d,
          where f = "\<lambda>start limit. int64_to_int limit"
            and g = "\<lambda>start limit. int64_to_int start", rotated])
      (use int64_to_int_less in simp)
qed

text \<open>
  C1. The claim is that \<open>Launch\<close> fills every batch slice with the product of the
  adjoints. For batch counts below \<open>2^31\<close> this holds (\<open>Launch_complex_correct\<close>,
  \<open>Launch_real_correct\<close>, and the specification's scenario in
  \<open>scenario_8_16_by_32_16\<close>). It fails for a batch of \<open>2^31\<close> matrices: \<open>num_units\<close> and
  the blocks of \<open>Shard\<close> are \<open>int64\<close>, the kernel's \<open>start\<close> and \<open>limit\<close> are \<open>int\<close>, and a
  limit of \<open>2^31\<close> arrives as \<open>- 2^31\<close>. Whatever the blocks, unit \<open>2^31 - 1\<close> is never
  written (\<open>Launch_never_writes_unit_2_31\<close>). The theorem evaluates \<open>Launch\<close> on two
  batches of \<open>2^31\<close> one-by-one matrices, all 1, over an output buffer holding 7, with
  one worker thread, where \<open>Shard\<close> runs the whole range as one block: the buffer comes
  back unchanged, so the last slice holds 7 where the product is 1.
\<close>

theorem Launch_batch_2_31:
  "Launch Run_real Conjugate_real 1 (\<lambda>p N c. [(0, N)])
     \<lparr>shape = [2147483648, 1, 1], flat = replicate 2147483648 (1 :: int)\<rparr>
     \<lparr>shape = [2147483648, 1, 1], flat = replicate 2147483648 1\<rparr>
     False False \<lparr>shape = [2147483648, 1, 1], flat = replicate 2147483648 7\<rparr> =
   Some \<lparr>shape = [2147483648, 1, 1], flat = replicate 2147483648 7\<rparr> \<and>
   chip0 \<lparr>shape = [2147483648, 1, 1], flat = replicate 2147483648 (7 :: int)\<rparr> 2147483647 =
     \<lparr>dim0 = 1, dim1 = 1, coeff = [7]\<rparr> \<and>
   transpose_product False False
     (chip0 \<lparr>shape = [2147483648, 1, 1], flat = replicate 2147483648 (1 :: int)\<rparr> 2147483647)
     (chip0 \<lparr>shape = [2147483648, 1, 1], flat = replicate 2147483648 1\<rparr> 2147483647) =
     \<lparr>dim0 = 1, dim1 = 1, coeff = [1]\<rparr>"
proof -
  have c: "chip0 \<lparr>shape = [2147483648, 1, 1], flat = replicate 2147483648 v\<rparr> 2147483647 =
     \<lparr>dim0 = 1, dim1 = 1, coeff = [v]\<rparr>" for v :: int
    by (simp add: chip0_def dim_size_def)
  show ?thesis
    unfolding c Launch_2_31_single_block
    by (simp add: transpose_product_def matmul_def coeff_at_def)
qed

lemma sharding_2_31:
  "sharding 2147483648 [(0, 2147483648)]" "sharding 2147483648 [(0, 1), (1, 2147483648)]"
  by (auto simp: sharding_def covers_once_def)

lemma Launch_2_31_two_blocks:
  "Launch Run_real Conjugate_real 2 (\<lambda>p N c. [(0, 1), (1, N)])
     \<lparr>shape = [2147483648, 1, 1], flat = replicate 2147483648 (1 :: int)\<rparr>
     \<lparr>shape = [2147483648, 1, 1], flat = replicate 2147483648 1\<rparr>
     False False \<lparr>shape = [2147483648, 1, 1], flat = replicate 2147483648 7\<rparr> =
   Some \<lparr>shape = [2147483648, 1, 1], flat = 1 # replicate 2147483647 7\<rparr>"
  by (simp add: Launch_def dispatch_def Let_def dim_size_def Run_real_def
      int64_to_int_2_31 int64_to_int_def for_units.simps chips_in_range_def Contract_real_def
      assign_chip0_def chip0_def contract_def contract_pairs_real_def coeff_at_def
      Conjugate_real_def)

text \<open>
  C10. The claim is that the result of the CPU backend is the same for every partition
  of \<open>[0, N)\<close> into blocks, whatever the pool size and \<open>parallelize_inner\<close>. Below \<open>2^31\<close>
  units this holds, through \<open>Launch\<close> and its conversions: any two shardings give the
  same tensor (\<open>Launch_complex_any_sharding\<close>, \<open>Launch_real_any_sharding\<close>), whose
  slices are the products (\<open>Launch_complex_correct\<close>, \<open>Launch_real_correct\<close>);
  \<open>Launch_two_blocks_example\<close> runs it. \<open>parallelize_inner\<close> only chooses the Eigen device
  of a contraction. It fails for a batch of \<open>2^31\<close> matrices, where a block that ends at
  \<open>2^31\<close> reaches the kernel with the limit \<open>- 2^31\<close> and is dropped. The theorem evaluates
  \<open>Launch\<close> on two batches of \<open>2^31\<close> one-by-one matrices, all 1, over an output buffer
  holding 7: with one worker and the single block \<open>[0, 2^31)\<close> nothing is written; with two
  workers and the blocks \<open>[0, 1)\<close>, \<open>[1, 2^31)\<close> slice 0 is written and nothing else. Both
  lists of blocks partition the range (\<open>sharding_2_31\<close>), and the two results differ.
\<close>

theorem Launch_blocks_2_31:
  "Launch Run_real Conjugate_real 1 (\<lambda>p N c. [(0, N)])
     \<lparr>shape = [2147483648, 1, 1], flat = replicate 2147483648 (1 :: int)\<rparr>
     \<lparr>shape = [2147483648, 1, 1], flat = replicate 2147483648 1\<rparr>
     False False \<lparr>shape = [2147483648, 1, 1], flat = replicate 2147483648 7\<rparr> =
   Some \<lparr>shape = [2147483648, 1, 1], flat = replicate 2147483648 7\<rparr> \<and>
   Launch Run_real Conjugate_real 2 (\<lambda>p N c. [(0, 1), (1, N)])
     \<lparr>shape = [2147483648, 1, 1], flat = replicate 2147483648 (1 :: int)\<rparr>
     \<lparr>shape = [2147483648, 1, 1], flat = replicate 2147483648 1\<rparr>
     False False \<lparr>shape = [2147483648, 1, 1], flat = replicate 2147483648 7\<rparr> =
   Some \<lparr>shape = [2147483648, 1, 1], flat = 1 # replicate 2147483647 7\<rparr> \<and>
   Launch Run_real Conjugate_real 1 (\<lambda>p N c. [(0, N)])
     \<lparr>shape = [2147483648, 1, 1], flat = replicate 2147483648 (1 :: int)\<rparr>
     \<lparr>shape = [2147483648, 1, 1], flat = replicate 2147483648 1\<rparr>
     False False \<lparr>shape = [2147483648, 1, 1], flat = replicate 2147483648 7\<rparr> \<noteq>
   Launch Run_real Conjugate_real 2 (\<lambda>p N c. [(0, 1), (1, N)])
     \<lparr>shape = [2147483648, 1, 1], flat = replicate 2147483648 (1 :: int)\<rparr>
     \<lparr>shape = [2147483648, 1, 1], flat = replicate 2147483648 1\<rparr>
     False False \<lparr>shape = [2147483648, 1, 1], flat = replicate 2147483648 7\<rparr>"
proof -
  have "hd (replicate 2147483648 (7 :: int)) \<noteq> hd (1 # replicate 2147483647 7)" by simp
  then have "replicate 2147483648 (7 :: int) \<noteq> 1 # replicate 2147483647 7" by metis
  then show ?thesis
    unfolding Launch_2_31_single_block Launch_2_31_two_blocks by simp
qed

section \<open>The GPU launcher\<close>

text \<open>
  C9. On the GPU, a scratch allocation that fails is not an error of the call:
  \<open>AllocateBytes\<close> answers with a null buffer of size 0, keeps nothing, and never
  answers with an error status, so the batched GEMM goes on with what it was given. With
  a stream, \<open>Launch\<close> issues exactly one batched GEMM (for the row-major product, the
  operands swapped), and the status it leaves is decided by that call alone: OK when the
  launch was accepted, otherwise the internal error whose message carries both input
  shapes and m, n, k and batch_size. What the GEMM does with a null scratch buffer is the
  BLAS runtime's affair, here a parameter.
\<close>

theorem gpu_scratch_stub_and_launch_failure:
  "(allocate_temp byte_size = Inl allocation_status \<longrightarrow>
      AllocateBytes allocate_temp byte_size allocated_tensors =
        (Inr \<lparr>opaque = None, size_bytes = 0\<rparr>, allocated_tensors)) \<and>
   (\<exists>memory. fst (AllocateBytes allocate_temp byte_size allocated_tensors) = Inr memory) \<and>
   (\<exists>launched written.
      fst (Launch_gpu is_complex (Some gemm) allocate_temp in_x in_y adj_x adj_y out) =
        (if launched then OK
         else Internal [Str ''Blas SGEMMBatched launch failed : a.shape='',
                Shp (shape in_x), Str '', b.shape='', Shp (shape in_y),
                Str '', m='', Num (int (dim_size in_x (if adj_x then 2 else 1))),
                Str '', n='', Num (int (dim_size in_y (if adj_y then 1 else 2))),
                Str '', k='', Num (int (dim_size in_x (if adj_x then 1 else 2))),
                Str '', batch_size='', Num (int (dim_size in_x 0))]) \<and>
      (launched, written) =
        gemm
          \<lparr>gemm_transa = (if adj_y then (if is_complex then kConjugateTranspose else kTranspose)
                           else kNoTranspose),
           gemm_transb = (if adj_x then (if is_complex then kConjugateTranspose else kTranspose)
                           else kNoTranspose),
           gemm_m = dim_size in_y (if adj_y then 1 else 2),
           gemm_n = dim_size in_x (if adj_x then 2 else 1),
           gemm_k = dim_size in_x (if adj_x then 1 else 2), gemm_alpha = 1,
           gemm_a = map (\<lambda>i. i * dim_size in_x (if adj_x then 1 else 2) *
                              dim_size in_y (if adj_y then 1 else 2)) [0..<dim_size in_x 0],
           gemm_lda = (if adj_y then dim_size in_x (if adj_x then 1 else 2)
                       else dim_size in_y (if adj_y then 1 else 2)),
           gemm_b = map (\<lambda>i. i * dim_size in_x (if adj_x then 2 else 1) *
                              dim_size in_x (if adj_x then 1 else 2)) [0..<dim_size in_x 0],
           gemm_ldb = (if adj_x then dim_size in_x (if adj_x then 2 else 1)
                       else dim_size in_x (if adj_x then 1 else 2)),
           gemm_beta = 0,
           gemm_c = map (\<lambda>i. i * dim_size in_x (if adj_x then 2 else 1) *
                              dim_size in_y (if adj_y then 1 else 2)) [0..<dim_size in_x 0],
           gemm_ldc = dim_size in_y (if adj_y then 1 else 2),
           gemm_batch_count = dim_size in_x 0\<rparr>
          (flat in_y) (flat in_x) (flat out) (AllocateBytes allocate_temp) [])"
proof (intro conjI impI)
  assume "allocate_temp byte_size = Inl allocation_status"
  then show "AllocateBytes allocate_temp byte_size allocated_tensors =
        (Inr \<lparr>opaque = None, size_bytes = 0\<rparr>, allocated_tensors)"
    by (simp add: AllocateBytes_def)
next
  show "\<exists>memory. fst (AllocateBytes allocate_temp byte_size allocated_tensors) = Inr memory"
    by (simp add: AllocateBytes_def split: sum.split)
next
  obtain launched written where g: "(launched, written) =
        gemm
          \<lparr>gemm_transa = (if adj_y then (if is_complex then kConjugateTranspose else kTranspose)
                           else kNoTranspose),
           gemm_transb = (if adj_x then (if is_complex then kConjugateTranspose else kTranspose)
                           else kNoTranspose),
           gemm_m = dim_size in_y (if adj_y then 1 else 2),
           gemm_n = dim_size in_x (if adj_x then 2 else 1),
           gemm_k = dim_size in_x (if adj_x then 1 else 2), gemm_alpha = 1,
           gemm_a = map (\<lambda>i. i * dim_size in_x (if adj_x then 1 else 2) *
                              dim_size in_y (if adj_y then 1 else 2)) [0..<dim_size in_x 0],
           gemm_lda = (if adj_y then dim_size in_x (if adj_x then 1 else 2)
                       else dim_size in_y (if adj_y then 1 else 2)),
           gemm_b = map (\<lambda>i. i * dim_size in_x (if adj_x then 2 else 1) *
                              dim_size in_x (if adj_x then 1 else 2)) [0..<dim_size in_x 0],
           gemm_ldb = (if adj_x then dim_size in_x (if adj_x then 2 else 1)
                       else dim_size in_x (if adj_x then 1 else 2)),
           gemm_beta = 0,
           gemm_c = map (\<lambda>i. i * dim_size in_x (if adj_x then 2 else 1) *
                              dim_size in_y (if adj_y then 1 else 2)) [0..<dim_size in_x 0],
           gemm_ldc = dim_size in_y (if adj_y then 1 else 2),
           gemm_batch_count = dim_size in_x 0\<rparr>
          (flat in_y) (flat in_x) (flat out) (AllocateBytes allocate_temp) []"
    by (metis surj_pair)
  have "fst (Launch_gpu is_complex (Some gemm) allocate_temp in_x in_y adj_x adj_y out) =
        (if launched then OK
         else Internal [Str ''Blas SGEMMBatched launch failed : a.shape='',
                Shp (shape in_x), Str '', b.shape='', Shp (shape in_y),
                Str '', m='', Num (int (dim_size in_x (if adj_x then 2 else 1))),
                Str '', n='', Num (int (dim_size in_y (if adj_y then 1 else 2))),
                Str '', k='', Num (int (dim_size in_x (if adj_x then 1 else 2))),
                Str '', batch_size='', Num (int (dim_size in_x 0))])"
    using g [symmetric]
    by (cases adj_x; cases adj_y) (simp_all add: Launch_gpu_def Let_def)
  with g show "\<exists>launched written.
      fst (Launch_gpu is_complex (Some gemm) allocate_temp in_x in_y adj_x adj_y out) =
        (if launched then OK
         else Internal [Str ''Blas SGEMMBatched launch failed : a.shape='',
                Shp (shape in_x), Str '', b.shape='', Shp (shape in_y),
                Str '', m='', Num (int (dim_size in_x (if adj_x then 2 else 1))),
                Str '', n='', Num (int (dim_size in_y (if adj_y then 1 else 2))),
                Str '', k='', Num (int (dim_size in_x (if adj_x then 1 else 2))),
                Str '', batch_size='', Num (int (dim_size in_x 0))]) \<and>
      (launched, written) =
        gemm
          \<lparr>gemm_transa = (if adj_y then (if is_complex then kConjugateTranspose else kTranspose)
                           else kNoTranspose),
           gemm_transb = (if adj_x then (if is_complex then kConjugateTranspose else kTranspose)
                           else kNoTranspose),
           gemm_m = dim_size in_y (if adj_y then 1 else 2),
           gemm_n = dim_size in_x (if adj_x then 2 else 1),
           gemm_k = dim_size in_x (if adj_x then 1 else 2), gemm_alpha = 1,
           gemm_a = map (\<lambda>i. i * dim_size in_x (if adj_x then 1 else 2) *
                              dim_size in_y (if adj_y then 1 else 2)) [0..<dim_size in_x 0],
           gemm_lda = (if adj_y then dim_size in_x (if adj_x then 1 else 2)
                       else dim_size in_y (if adj_y then 1 else 2)),
           gemm_b = map (\<lambda>i. i * dim_size in_x (if adj_x then 2 else 1) *
                              dim_size in_x (if adj_x then 1 else 2)) [0..<dim_size in_x 0],
           gemm_ldb = (if adj_x then dim_size in_x (if adj_x then 2 else 1)
                       else dim_size in_x (if adj_x then 1 else 2)),
           gemm_beta = 0,
           gemm_c = map (\<lambda>i. i * dim_size in_x (if adj_x then 2 else 1) *
                              dim_size in_y (if adj_y then 1 else 2)) [0..<dim_size in_x 0],
           gemm_ldc = dim_size in_y (if adj_y then 1 else 2),
           gemm_batch_count = dim_size in_x 0\<rparr>
          (flat in_y) (flat in_x) (flat out) (AllocateBytes allocate_temp) []"
    by blast
qed

theorem gpu_scratch_stub_and_launch_failure_witness:
  "AllocateBytes (\<lambda>byte_size. Inl (ResourceExhausted [Str ''OOM''])) 4096 [(7, 16)] =
     (Inr \<lparr>opaque = None, size_bytes = 0\<rparr>, [(7, 16)]) \<and>
   status (Compute_gpu False
      (Some (\<lambda>args a b c allocate held.
               (case fst (allocate 4096 held) of Inr memory \<Rightarrow> True | Inl e \<Rightarrow> False, c)))
      (\<lambda>byte_size. Inl (ResourceExhausted [Str ''OOM'']))
      (\<lambda>s. Inr (\<lambda>i. 0)) False False
      \<lparr>shape = [1, 2], flat = [1, 2 :: int]\<rparr> \<lparr>shape = [2, 1], flat = [3, 4]\<rparr>) = OK \<and>
   fst (Launch_gpu False (Some (\<lambda>args a b c allocate held. (False, c)))
      (\<lambda>byte_size. Inl (ResourceExhausted [Str ''OOM'']))
      \<lparr>shape = [3, 1, 2], flat = [1, 2, 3, 4, 5, 6 :: int]\<rparr>
      \<lparr>shape = [3, 2, 4], flat = replicate 24 1\<rparr> False False
      \<lparr>shape = [3, 1, 4], flat = replicate 12 0\<rparr>) =
     Internal [Str ''Blas SGEMMBatched launch failed : a.shape='', Shp [3, 1, 2],
               Str '', b.shape='', Shp [3, 2, 4], Str '', m='', Num 1, Str '', n='', Num 4,
               Str '', k='', Num 2, Str '', batch_size='', Num 3]"
  using gpu_scratch_stub_and_launch_failure
          [where allocate_temp = "\<lambda>byte_size. Inl (ResourceExhausted [Str ''OOM''])"
             and byte_size = 4096 and allocated_tensors = "[(7, 16)]"
             and allocation_status = "ResourceExhausted [Str ''OOM'']"
             and is_complex = False
             and gemm = "\<lambda>args a b c allocate held. (False, c)"
             and in_x = "\<lparr>shape = [3, 1, 2], flat = [1, 2, 3, 4, 5, 6 :: int]\<rparr>"
             and in_y = "\<lparr>shape = [3, 2, 4], flat = replicate 24 1\<rparr>"
             and adj_x = False and adj_y = False
             and out = "\<lparr>shape = [3, 1, 4], flat = replicate 12 0\<rparr>"]
  by (simp add: dim_size_def Compute_gpu_def Compute_def Launch_gpu_def AllocateBytes_def
        Let_def dims_def batch_dims.simps CopyFrom_def NumElements_def num_elements_def)

end
